theory Spec2Isabelle
  imports Main "HOL-Library.Word" "HOL-Library.Multiset"
begin

section \<open>Go values, errors and panics\<close>

text \<open>
  Values stored in an \<open>interface{}\<close>: the plugin stores Go \<open>int\<close> (the initial 0 of
  \<open>setProcMetrics\<close> and the state counts), \<open>uint64\<close> and \<open>string\<close>; a configuration
  item may also be a \<open>bool\<close>. \<open>None\<close> of \<open>gvalue option\<close> is the nil interface.
\<close>

datatype gvalue = GInt int | GUint64 "64 word" | GString string | GBool bool

text \<open>
  A Go \<open>error\<close>: \<open>Errorf msg\<close> is an error made by \<open>fmt.Errorf\<close> or by a collaborator,
  \<open>SError e\<close> is \<open>serror.New(e)\<close>.
\<close>

datatype error = Errorf string | SError error

text \<open>
  A run-time panic: indexing a slice of length \<open>n\<close> at \<open>i \<ge> n\<close>, or a failed type
  assertion \<open>x.(string)\<close>.
\<close>

datatype panic = IndexOutOfRange nat nat | TypeAssertion

text \<open>A call either returns an error to its caller or panics.\<close>

datatype failure = Returned error | Panicked panic

definition index :: "'a list \<Rightarrow> nat \<Rightarrow> failure + 'a" where
  "index xs i =
     (if i < length xs then Inr (xs ! i) else Inl (Panicked (IndexOutOfRange i (length xs))))"

definition and_then :: "failure + 'a \<Rightarrow> ('a \<Rightarrow> failure + 'b) \<Rightarrow> failure + 'b" where
  "and_then r f = (case r of Inl e \<Rightarrow> Inl e | Inr x \<Rightarrow> f x)"

section \<open>Library functions: strconv and strings\<close>

datatype NumError = ErrSyntax | ErrRange

definition maxUint64 :: "64 word" where
  "maxUint64 = 18446744073709551615"

definition cutoff :: "64 word" where
  "cutoff = maxUint64 div 10 + 1"

definition is_digit :: "char \<Rightarrow> bool" where
  "is_digit c = (48 \<le> (of_char c :: nat) \<and> (of_char c :: nat) \<le> 57)"

definition digit_val :: "char \<Rightarrow> 64 word" where
  "digit_val c = of_nat ((of_char c :: nat) - 48)"

text \<open>
  The digit loop of \<open>strconv.ParseUint(s, 10, 64)\<close>, \<open>n\<close> the number read so far. A byte
  that is not a decimal digit (a letter is a digit of a base above 10) ends the loop with
  \<open>(0, ErrSyntax)\<close>; a number that does not fit 64 bits ends it with
  \<open>(1<<64 - 1, ErrRange)\<close>, before the bytes after it are looked at.
\<close>

fun ParseUint_loop :: "64 word \<Rightarrow> string \<Rightarrow> 64 word \<times> NumError option" where
  "ParseUint_loop n [] = (n, None)"
| "ParseUint_loop n (c # cs) =
     (if \<not> is_digit c then (0, Some ErrSyntax)
      else if n \<ge> cutoff then (maxUint64, Some ErrRange)
      else let n10 = n * 10; n1 = n10 + digit_val c
           in if n1 < n10 \<or> n1 > maxUint64 then (maxUint64, Some ErrRange)
              else ParseUint_loop n1 cs)"

definition ParseUint :: "string \<Rightarrow> 64 word \<times> NumError option" where
  "ParseUint s = (if s = [] then (0, Some ErrSyntax) else ParseUint_loop 0 s)"

text \<open>\<open>strconv.Itoa\<close>: the decimal digits, after a minus sign for a negative number.\<close>

fun digits10 :: "nat \<Rightarrow> string" where
  "digits10 n =
     (if n < 10 then [''0123456789'' ! n]
      else digits10 (n div 10) @ [''0123456789'' ! (n mod 10)])"

declare digits10.simps [simp del]

definition Itoa :: "int \<Rightarrow> string" where
  "Itoa i = (if i < 0 then CHR ''-'' # digits10 (nat (- i)) else digits10 (nat i))"

text \<open>
  \<open>strings.Split(s, sep)\<close> for a separator of one byte: the pieces of \<open>s\<close> between the
  separators, one more piece than there are separators.
\<close>

fun Split :: "string \<Rightarrow> char \<Rightarrow> string list" where
  "Split [] sep = [[]]"
| "Split (c # cs) sep =
     (if c = sep then [] # Split cs sep
      else (case Split cs sep of [] \<Rightarrow> [[c]] | w # ws \<Rightarrow> (c # w) # ws))"

text \<open>\<open>str.Contains(slice, lookup)\<close> of snap-plugin-utilities.\<close>

fun Contains :: "string list \<Rightarrow> string \<Rightarrow> bool" where
  "Contains [] lookup = False"
| "Contains (x # xs) lookup = (if x = lookup then True else Contains xs lookup)"

section \<open>Namespaces and metric types of the snap framework\<close>

record NamespaceElement =
  Value :: string
  Description :: string
  Name :: string

type_synonym Namespace = "NamespaceElement list"

definition IsDynamic :: "NamespaceElement \<Rightarrow> bool" where
  "IsDynamic e = (Name e \<noteq> [])"

text \<open>\<open>Namespace.IsDynamic\<close>: whether some element is dynamic, and the positions of those.\<close>

definition Namespace_IsDynamic :: "Namespace \<Rightarrow> bool \<times> nat list" where
  "Namespace_IsDynamic ns =
     (let idx = filter (\<lambda>i. IsDynamic (ns ! i)) [0..<length ns] in (idx \<noteq> [], idx))"

definition NewNamespace :: "string list \<Rightarrow> Namespace" where
  "NewNamespace ns = map (\<lambda>s. \<lparr>Value = s, Description = [], Name = []\<rparr>) ns"

definition AddDynamicElement :: "Namespace \<Rightarrow> string \<Rightarrow> string \<Rightarrow> Namespace" where
  "AddDynamicElement n name descr = n @ [\<lparr>Value = ''*'', Description = descr, Name = name\<rparr>]"

definition AddStaticElements :: "Namespace \<Rightarrow> string list \<Rightarrow> Namespace" where
  "AddStaticElements n vals = n @ map (\<lambda>v. \<lparr>Value = v, Description = [], Name = []\<rparr>) vals"

type_synonym ConfigDataNode = "(string \<times> gvalue) list"

text \<open>
  \<open>plugin.MetricType\<close>, with the fields that the plugin sets or reads. The underscore that
  ends the name of a Go field is written as a prime.
\<close>

record MetricType =
  Namespace' :: Namespace
  Config' :: "ConfigDataNode option"
  Data' :: "gvalue option"
  Timestamp' :: nat
  Unit' :: string
  Description' :: string

section \<open>The plugin's tables and records\<close>

record label =
  description :: string
  unit :: string

definition pluginName :: string where "pluginName = ''processes''"
definition pluginVendor :: string where "pluginVendor = ''intel''"
definition fs :: string where "fs = ''procfs''"

definition metricNames :: "(string \<times> label) list" where
  "metricNames =
    [(''ps_vm'', \<lparr>description = ''Virtual memory size in bytes'', unit = ''B''\<rparr>),
     (''ps_rss'', \<lparr>description = ''Resident Set Size: number of pages the process has in real memory'', unit = ''''\<rparr>),
     (''ps_data'', \<lparr>description = ''Size of data segments'', unit = ''B''\<rparr>),
     (''ps_code'', \<lparr>description = ''Size of text segment'', unit = ''B''\<rparr>),
     (''ps_stacksize'', \<lparr>description = ''Stack size'', unit = ''B''\<rparr>),
     (''ps_cputime_user'', \<lparr>description = ''Amount of time that this process has been scheduled in user mode'', unit = ''Jiff''\<rparr>),
     (''ps_cputime_system'', \<lparr>description = ''Amount of time that this process has been scheduled in kernel mode'', unit = ''Jiff''\<rparr>),
     (''ps_pagefaults_min'', \<lparr>description = ''The number of minor faults the process has made'', unit = ''''\<rparr>),
     (''ps_pagefaults_maj'', \<lparr>description = ''The number of major faults the process has made'', unit = ''''\<rparr>),
     (''ps_disk_ops_syscr'', \<lparr>description = ''Attempt to count the number of read I/O operations'', unit = ''''\<rparr>),
     (''ps_disk_ops_syscw'', \<lparr>description = ''Attempt to count the number of write I/O operations'', unit = ''''\<rparr>),
     (''ps_disk_octets_rchar'', \<lparr>description = ''The number of bytes which this task has caused to be read from storage'', unit = ''B''\<rparr>),
     (''ps_disk_octets_wchar'', \<lparr>description = ''The number of bytes which this task has caused, or shall cause to be written to disk'', unit = ''B''\<rparr>),
     (''ps_cmd_line'', \<lparr>description = ''Process command line with full path and args'', unit = ''''\<rparr>),
     (''ps_cmd'', \<lparr>description = ''Process command line with full path'', unit = ''''\<rparr>)]"

text \<open>\<open>metricNames[k]\<close>: a Go map read gives the zero label for a key that is absent.\<close>

definition metricNames_at :: "string \<Rightarrow> label" where
  "metricNames_at k =
     (case map_of metricNames k of None \<Rightarrow> \<lparr>description = [], unit = []\<rparr> | Some l \<Rightarrow> l)"

text \<open>
  Modelled from the spec: the declaration of \<open>Proc\<close> is not in processes.go. The record has
  the fields that processes.go reads: the process id, the state code, the raw status fields,
  the sizes of the data and code segments, the command, the command line and the I/O counters.
\<close>

record Proc =
  Pid :: int
  State :: string
  CmdLine :: string
  Cmd :: string
  Stat :: "string list"
  Io :: "string \<rightharpoonup> 64 word"
  VmData :: "64 word"
  VmCode :: "64 word"

text \<open>\<open>proc.Io[k]\<close>: zero for a counter that is absent.\<close>

definition Io_at :: "Proc \<Rightarrow> string \<Rightarrow> 64 word" where
  "Io_at proc k = (case Io proc k of None \<Rightarrow> 0 | Some v \<Rightarrow> v)"

section \<open>setProcMetrics\<close>

definition setProcMetrics :: "Proc \<Rightarrow> failure + (string \<rightharpoonup> gvalue)" where
  "setProcMetrics proc =
    (let procMetrics = fold (\<lambda>metricName m. m(metricName \<mapsto> GInt 0)) (map fst metricNames) Map.empty
     in
     and_then (index (Stat proc) 22) (\<lambda>s22.
     let vm = fst (ParseUint s22);
         procMetrics = procMetrics(''ps_vm'' \<mapsto> GUint64 vm)
     in
     and_then (index (Stat proc) 23) (\<lambda>s23.
     let rss = fst (ParseUint s23);
         procMetrics = procMetrics(''ps_rss'' \<mapsto> GUint64 rss);
         procMetrics = procMetrics(''ps_data'' \<mapsto> GUint64 (VmData proc));
         procMetrics = procMetrics(''ps_code'' \<mapsto> GUint64 (VmCode proc))
     in
     and_then (index (Stat proc) 27) (\<lambda>s27.
     and_then (index (Stat proc) 28) (\<lambda>s28.
     let stack1 = fst (ParseUint s27);
         stack2 = fst (ParseUint s28);
         procMetrics =
           (if stack1 > stack2 then procMetrics(''ps_stacksize'' \<mapsto> GUint64 (stack1 - stack2))
            else procMetrics(''ps_stacksize'' \<mapsto> GUint64 (stack2 - stack1)))
     in
     and_then (index (Stat proc) 13) (\<lambda>s13.
     let utime = fst (ParseUint s13);
         procMetrics = procMetrics(''ps_cputime_user'' \<mapsto> GUint64 utime)
     in
     and_then (index (Stat proc) 14) (\<lambda>s14.
     let stime = fst (ParseUint s14);
         procMetrics = procMetrics(''ps_cputime_system'' \<mapsto> GUint64 stime)
     in
     and_then (index (Stat proc) 9) (\<lambda>s9.
     let minflt = fst (ParseUint s9);
         procMetrics = procMetrics(''ps_pagefaults_min'' \<mapsto> GUint64 minflt)
     in
     and_then (index (Stat proc) 11) (\<lambda>s11.
     let majflt = fst (ParseUint s11);
         procMetrics = procMetrics(''ps_pagefaults_maj'' \<mapsto> GUint64 majflt);
         procMetrics = procMetrics(''ps_disk_octets_rchar'' \<mapsto> GUint64 (Io_at proc ''rchar''));
         procMetrics = procMetrics(''ps_disk_octets_wchar'' \<mapsto> GUint64 (Io_at proc ''wchar''));
         procMetrics = procMetrics(''ps_disk_ops_syscr'' \<mapsto> GUint64 (Io_at proc ''syscr''));
         procMetrics = procMetrics(''ps_disk_ops_syscw'' \<mapsto> GUint64 (Io_at proc ''syscw''));
         procMetrics = procMetrics(''ps_cmd_line'' \<mapsto> GString (CmdLine proc));
         procMetrics = procMetrics(''ps_cmd'' \<mapsto> GString (Cmd proc))
     in Inr procMetrics)))))))))"

section \<open>The collaborators of the plugin\<close>

text \<open>
  The table \<open>States\<close> (state code to state name) is declared outside processes.go, so it
  is a parameter: an association list, whose order is the order in which the Go map is
  ranged over. \<open>Values\<close> are its state names; \<open>States_at\<close> is \<open>States[code]\<close>, the empty
  string for a code that is absent.
\<close>

type_synonym ProcessStates = "(string \<times> string) list"

definition Values :: "ProcessStates \<Rightarrow> string list" where
  "Values sts = map snd sts"

definition States_at :: "ProcessStates \<Rightarrow> string \<Rightarrow> string" where
  "States_at sts code = (case map_of sts code of None \<Rightarrow> [] | Some name \<Rightarrow> name)"

text \<open>
  What a call of \<open>CollectMetrics\<close> depends on beside its argument: the table \<open>States\<close>;
  \<open>config.GetConfigItem\<close> of snap-plugin-utilities; the data source \<open>mc.GetStats\<close>, which
  returns the snapshot as a sequence of process records or an error; the
  order in which Go ranges over the map \<open>procMetrics\<close> of a process; and the clock, whose
  \<open>n\<close>-th reading \<open>time.Now()\<close> returns once \<open>n\<close> metrics have been appended.
\<close>

record env =
  States :: ProcessStates
  GetConfigItem :: "MetricType \<Rightarrow> string \<Rightarrow> error + gvalue"
  GetStats :: "string \<Rightarrow> error + Proc list"
  range_order :: "Proc \<Rightarrow> string list"
  Now :: "nat \<Rightarrow> nat"

text \<open>The calls of the collaborators that a run makes, in order.\<close>

datatype call = Call_GetConfigItem MetricType | Call_GetStats string

section \<open>GetMetricTypes\<close>

text \<open>\<open>order\<close> is the order in which Go ranges over the map \<open>metricNames\<close>.\<close>

definition GetMetricTypes :: "string list \<Rightarrow> ProcessStates \<Rightarrow> ConfigDataNode option \<Rightarrow> MetricType list" where
  "GetMetricTypes order sts cfg =
     (let metricTypes = [];
          metricTypes = fold (\<lambda>metricName metricTypes.
              let label = metricNames_at metricName;
                  metricType = \<lparr>Namespace' =
                      AddStaticElements
                        (AddDynamicElement
                          (AddDynamicElement (NewNamespace [pluginVendor, fs, pluginName, ''pid''])
                             ''process_id'' ''pid of the running process'')
                          ''process_name'' ''name of the running process'')
                        [metricName],
                    Config' = cfg, Data' = None, Timestamp' = 0,
                    Unit' = unit label, Description' = description label\<rparr>
              in metricTypes @ [metricType]) order metricTypes;
          metricTypes = fold (\<lambda>state metricTypes.
              let metricType = \<lparr>Namespace' = NewNamespace [pluginVendor, fs, pluginName, state],
                    Config' = cfg, Data' = None, Timestamp' = 0,
                    Unit' = [],
                    Description' = ''Number of processes in '' @ state @ '' state''\<rparr>
              in metricTypes @ [metricType]) (Values sts) metricTypes
      in metricTypes)"

section \<open>CollectMetrics\<close>

text \<open>Lines 185 to 200: every state name starts at 0, then each process is counted.\<close>

definition init_stateCount :: "ProcessStates \<Rightarrow> (string \<rightharpoonup> int)" where
  "init_stateCount sts = fold (\<lambda>state stateCount. stateCount(state \<mapsto> 0)) (Values sts) Map.empty"

definition count_proc :: "ProcessStates \<Rightarrow> Proc \<Rightarrow> (string \<rightharpoonup> int) \<Rightarrow> (string \<rightharpoonup> int)" where
  "count_proc sts proc stateCount =
     (let stateName = States_at sts (State proc)
      in stateCount(stateName \<mapsto> (case stateCount stateName of None \<Rightarrow> 0 | Some n \<Rightarrow> n) + 1))"

definition count_states :: "ProcessStates \<Rightarrow> Proc list \<Rightarrow> (string \<rightharpoonup> int)" where
  "count_states sts stats = fold (count_proc sts) stats (init_stateCount sts)"

text \<open>
  Lines 216 to 233: the range over \<open>procMetrics\<close>, in the order \<open>ks\<close>, for one process.
\<close>

fun procMetrics_loop ::
  "env \<Rightarrow> Namespace \<Rightarrow> Proc \<Rightarrow> (string \<rightharpoonup> gvalue) \<Rightarrow> MetricType list \<Rightarrow> string list
     \<Rightarrow> failure + MetricType list" where
  "procMetrics_loop e ns proc procMetrics metrics [] = Inr metrics"
| "procMetrics_loop e ns proc procMetrics metrics (procMet # ks) =
     and_then (index ns 6) (\<lambda>ns6.
       if procMet = Value ns6 then
         (let val = procMetrics procMet;
              nuns = ns;
              nuns = nuns[4 := (nuns ! 4)\<lparr>Value := Itoa (Pid proc)\<rparr>]
          in
          and_then (index (Split (CmdLine proc) (CHR 0x00)) 0) (\<lambda>cmd0.
          let cmdPath = Split cmd0 (CHR ''/'') in
          and_then (index cmdPath (length cmdPath - 1)) (\<lambda>name.
          let nuns = nuns[5 := (nuns ! 5)\<lparr>Value := name\<rparr>];
              metric = \<lparr>Namespace' = nuns, Config' = None, Data' = val,
                        Timestamp' = Now e (length metrics),
                        Unit' = unit (metricNames_at procMet),
                        Description' = description (metricNames_at procMet)\<rparr>
          in procMetrics_loop e ns proc procMetrics (metrics @ [metric]) ks)))
       else procMetrics_loop e ns proc procMetrics metrics ks)"

text \<open>Lines 214 to 234: the range over the snapshot.\<close>

fun stats_loop :: "env \<Rightarrow> Namespace \<Rightarrow> MetricType list \<Rightarrow> Proc list \<Rightarrow> failure + MetricType list" where
  "stats_loop e ns metrics [] = Inr metrics"
| "stats_loop e ns metrics (proc # stats) =
     and_then (setProcMetrics proc) (\<lambda>procMetrics.
     and_then (procMetrics_loop e ns proc procMetrics metrics (range_order e proc)) (\<lambda>metrics.
     stats_loop e ns metrics stats))"

text \<open>Lines 204 to 254: the body of the range over the requested metric types.\<close>

definition collect_one ::
  "env \<Rightarrow> Proc list \<Rightarrow> (string \<rightharpoonup> int) \<Rightarrow> MetricType list \<Rightarrow> MetricType \<Rightarrow> failure + MetricType list" where
  "collect_one e stats stateCount metrics metricType =
     (let ns = Namespace' metricType in
      if length ns < 4 then
        Inl (Returned (SError (Errorf
          (''Unknown namespace length. Expecting at least 4, is '' @ Itoa (int (length ns))))))
      else
        let isDynamic = fst (Namespace_IsDynamic ns) in
        if isDynamic then
          and_then (index ns 4) (\<lambda>ns4.
          and_then (if IsDynamic ns4 then and_then (index ns 5) (\<lambda>ns5. Inr (IsDynamic ns5))
                    else Inr False) (\<lambda>both.
          if both then stats_loop e ns metrics stats
          else and_then (index ns 4) (\<lambda>ns4. if IsDynamic ns4 then Inr metrics else Inr metrics)))
        else if Contains (Values (States e)) (Value (ns ! 3)) then
          (let state = Value (ns ! 3) in
           case stateCount state of
             Some val \<Rightarrow>
               Inr (metrics @
                 [\<lparr>Namespace' = ns, Config' = None, Data' = Some (GInt val),
                   Timestamp' = Now e (length metrics), Unit' = [],
                   Description' = ''Number of processes in '' @ state @ '' state''\<rparr>])
           | None \<Rightarrow> Inr metrics)
        else Inr metrics)"

text \<open>Lines 203 to 257: the range over the requested metric types.\<close>

fun metricTypes_loop ::
  "env \<Rightarrow> Proc list \<Rightarrow> (string \<rightharpoonup> int) \<Rightarrow> MetricType list \<Rightarrow> MetricType list \<Rightarrow> failure + MetricType list" where
  "metricTypes_loop e stats stateCount metrics [] = Inr metrics"
| "metricTypes_loop e stats stateCount metrics (metricType # metricTypes) =
     and_then (collect_one e stats stateCount metrics metricType) (\<lambda>metrics.
     metricTypes_loop e stats stateCount metrics metricTypes)"

text \<open>
  \<open>CollectMetrics_run\<close> gives the calls made to the collaborators and what the call returns:
  the metrics, or the error returned with no metrics (\<open>return nil, err\<close>), or the panic.
\<close>

definition CollectMetrics_run :: "env \<Rightarrow> MetricType list \<Rightarrow> call list \<times> (failure + MetricType list)" where
  "CollectMetrics_run e metricTypes =
     (let metrics = [] in
      case index metricTypes 0 of
        Inl p \<Rightarrow> ([], Inl p)
      | Inr metricType0 \<Rightarrow>
         (case GetConfigItem e metricType0 ''proc_path'' of
            Inl err \<Rightarrow> ([Call_GetConfigItem metricType0], Inl (Returned err))
          | Inr procPath \<Rightarrow>
             (case procPath of
                GString path \<Rightarrow>
                  (case GetStats e path of
                     Inl err \<Rightarrow>
                       ([Call_GetConfigItem metricType0, Call_GetStats path],
                        Inl (Returned (SError err)))
                   | Inr stats \<Rightarrow>
                       ([Call_GetConfigItem metricType0, Call_GetStats path],
                        metricTypes_loop e stats (count_states (States e) stats) metrics metricTypes))
              | _ \<Rightarrow> ([Call_GetConfigItem metricType0], Inl (Panicked TypeAssertion)))))"

definition CollectMetrics :: "env \<Rightarrow> MetricType list \<Rightarrow> failure + MetricType list" where
  "CollectMetrics e metricTypes = snd (CollectMetrics_run e metricTypes)"

section \<open>Auxiliary definitions and concrete inputs\<close>

text \<open>The map that \<open>setProcMetrics\<close> returns, the empty map where it panics.\<close>

definition procMetrics_of :: "Proc \<Rightarrow> (string \<rightharpoonup> gvalue)" where
  "procMetrics_of proc = (case setProcMetrics proc of Inl _ \<Rightarrow> Map.empty | Inr pm \<Rightarrow> pm)"

text \<open>A process record with 29 status fields, all \<open>0\<close>.\<close>

definition stack_proc :: Proc where
  "stack_proc = \<lparr>Pid = 1, State = ''S'', CmdLine = ''/sbin/init'', Cmd = ''init'',
     Stat = replicate 29 ''0'', Io = Map.empty, VmData = 0, VmCode = 0\<rparr>"

text \<open>
  A text that \<open>ParseUint\<close> rejects as a syntax error whatever follows: the empty text, and a
  text with a byte that is not a decimal digit among its first 19 bytes (19 digits always
  fit 64 bits).
\<close>

definition malformed :: "string \<Rightarrow> bool" where
  "malformed s = (s = [] \<or> (\<exists>j < min 19 (length s). \<not> is_digit (s ! j)))"

text \<open>
  Three process records: one whose 29 status fields are all the text \<open>n/a\<close>, one whose
  field 22 is the decimal text of \<open>2^64\<close>, one with no status fields.
\<close>

definition malformed_proc :: Proc where
  "malformed_proc = \<lparr>Pid = 7, State = ''S'', CmdLine = ''/bin/sh'', Cmd = ''sh'',
     Stat = replicate 29 ''n/a'', Io = [''rchar'' \<mapsto> 5], VmData = 3, VmCode = 4\<rparr>"

definition overflow_proc :: Proc where
  "overflow_proc = \<lparr>Pid = 7, State = ''S'', CmdLine = ''/bin/sh'', Cmd = ''sh'',
     Stat = (replicate 29 ''0'')[22 := ''18446744073709551616''],
     Io = Map.empty, VmData = 3, VmCode = 4\<rparr>"

definition short_proc :: Proc where
  "short_proc = \<lparr>Pid = 7, State = ''S'', CmdLine = ''/bin/sh'', Cmd = ''sh'',
     Stat = [], Io = Map.empty, VmData = 3, VmCode = 4\<rparr>"

text \<open>The number of processes of a snapshot whose state code stands for the state name \<open>s\<close>.\<close>

definition procs_in_state :: "ProcessStates \<Rightarrow> Proc list \<Rightarrow> string \<Rightarrow> nat" where
  "procs_in_state sts stats s = length (filter (\<lambda>proc. States_at sts (State proc) = s) stats)"

text \<open>A table of two states, and a process in each.\<close>

definition ex_states :: ProcessStates where
  "ex_states = [(''R'', ''running''), (''S'', ''sleeping'')]"

definition proc_R :: Proc where
  "proc_R = stack_proc\<lparr>Pid := 10, State := ''R''\<rparr>"

definition proc_S :: Proc where
  "proc_S = stack_proc\<lparr>Pid := 11, State := ''S''\<rparr>"

text \<open>
  An order in which Go may range over the map \<open>metricNames\<close> (and over \<open>procMetrics\<close>,
  which has the same keys): every key once.
\<close>

definition is_range_order :: "string list \<Rightarrow> bool" where
  "is_range_order ks = (distinct ks \<and> set ks = set (map fst metricNames))"

text \<open>
  The pattern of a metric name: the static prefix, the dynamic elements for the process id
  and the process name, and the metric name as static leaf. The pattern of a state name:
  the static prefix and the state name as static leaf.
\<close>

definition metric_pattern :: "string \<Rightarrow> Namespace" where
  "metric_pattern metricName =
     [\<lparr>Value = ''intel'', Description = [], Name = []\<rparr>,
      \<lparr>Value = ''procfs'', Description = [], Name = []\<rparr>,
      \<lparr>Value = ''processes'', Description = [], Name = []\<rparr>,
      \<lparr>Value = ''pid'', Description = [], Name = []\<rparr>,
      \<lparr>Value = ''*'', Description = ''pid of the running process'', Name = ''process_id''\<rparr>,
      \<lparr>Value = ''*'', Description = ''name of the running process'', Name = ''process_name''\<rparr>,
      \<lparr>Value = metricName, Description = [], Name = []\<rparr>]"

definition state_pattern :: "string \<Rightarrow> Namespace" where
  "state_pattern state =
     [\<lparr>Value = ''intel'', Description = [], Name = []\<rparr>,
      \<lparr>Value = ''procfs'', Description = [], Name = []\<rparr>,
      \<lparr>Value = ''processes'', Description = [], Name = []\<rparr>,
      \<lparr>Value = state, Description = [], Name = []\<rparr>]"

text \<open>
  The last segment, between slashes, of the command line cut at its first NUL byte.
\<close>

definition process_name :: "string \<Rightarrow> string" where
  "process_name cmdline =
     rev (takeWhile (\<lambda>c. c \<noteq> CHR ''/'') (rev (takeWhile (\<lambda>c. c \<noteq> CHR 0x00) cmdline)))"

text \<open>
  The metric that lines 220 to 230 build for the process \<open>proc\<close> from the namespace \<open>ns\<close>,
  the value \<open>val\<close> and the time \<open>ts\<close>; and the metrics of a snapshot, one for each
  process, the \<open>n\<close>-th reading of the clock being the next.
\<close>

definition filled_metric :: "Namespace \<Rightarrow> Proc \<Rightarrow> gvalue option \<Rightarrow> nat \<Rightarrow> MetricType" where
  "filled_metric ns proc val ts =
     \<lparr>Namespace' = ns[4 := (ns ! 4)\<lparr>Value := Itoa (Pid proc)\<rparr>,
                       5 := (ns ! 5)\<lparr>Value := process_name (CmdLine proc)\<rparr>],
      Config' = None, Data' = val, Timestamp' = ts,
      Unit' = unit (metricNames_at (Value (ns ! 6))),
      Description' = description (metricNames_at (Value (ns ! 6)))\<rparr>"


text \<open>
  The snapshot of two processes of section 8 of the specification, with its data source,
  and the request for \<open>ps_vm\<close> of every process.
\<close>

definition proc_100 :: Proc where
  "proc_100 = \<lparr>Pid = 100, State = ''R'', CmdLine = ''/usr/bin/foo'' @ [CHR 0x00] @ ''-x'',
     Cmd = ''foo'', Stat = (replicate 29 ''0'')[22 := ''4096''],
     Io = Map.empty, VmData = 0, VmCode = 0\<rparr>"

definition proc_200 :: Proc where
  "proc_200 = \<lparr>Pid = 200, State = ''S'', CmdLine = ''/bin/bar'',
     Cmd = ''bar'', Stat = (replicate 29 ''0'')[22 := ''8192''],
     Io = Map.empty, VmData = 0, VmCode = 0\<rparr>"

definition env_two :: env where
  "env_two = \<lparr>States = ex_states,
     GetConfigItem = (\<lambda>metricType name. Inr (GString ''/proc'')),
     GetStats = (\<lambda>path. if path = ''/proc'' then Inr [proc_100, proc_200]
                          else Inl (Errorf ''no such file or directory'')),
     range_order = (\<lambda>proc. rev (map fst metricNames)),
     Now = (\<lambda>n. 1000 + n)\<rparr>"

definition request :: "Namespace \<Rightarrow> MetricType" where
  "request ns = \<lparr>Namespace' = ns, Config' = None, Data' = None, Timestamp' = 0,
     Unit' = [], Description' = []\<rparr>"


definition env_unreadable :: env where
  "env_unreadable = env_two\<lparr>GetStats := (\<lambda>path. Inl (Errorf ''permission denied''))\<rparr>"

definition env_no_config :: env where
  "env_no_config = env_two\<lparr>GetConfigItem :=
     (\<lambda>metricType name. Inl (Errorf ''Cannot find proc_path in Global Config''))\<rparr>"

text \<open>
  Namespaces with a dynamic element that are shorter than the patterns of \<open>GetMetricTypes\<close>:
  \<open>/intel/procfs/processes/*\<close> of 4 elements and \<open>/intel/procfs/processes/pid/*/*\<close> of 6;
  and a namespace of 3 elements.
\<close>

definition dynamic_4 :: Namespace where
  "dynamic_4 = AddDynamicElement (NewNamespace [''intel'', ''procfs'', ''processes''])
     ''process_id'' ''pid of the running process''"

definition dynamic_6 :: Namespace where
  "dynamic_6 = take 6 (metric_pattern ''ps_vm'')"

definition short_3 :: Namespace where
  "short_3 = NewNamespace [''intel'', ''procfs'', ''processes'']"

text \<open>
  A namespace that the body of the loop resolves with every element access in range: it
  has at least 4 elements, and at least 7 if one of them is dynamic.
\<close>

definition resolvable :: "Namespace \<Rightarrow> bool" where
  "resolvable ns = (4 \<le> length ns \<and> ((\<exists>el \<in> set ns. IsDynamic el) \<longrightarrow> 7 \<le> length ns))"

text \<open>The error of line 206 for a namespace of \<open>n\<close> elements.\<close>

definition namespace_length_error :: "nat \<Rightarrow> failure" where
  "namespace_length_error n =
     Returned (SError (Errorf (''Unknown namespace length. Expecting at least 4, is '' @ Itoa (int n))))"

text \<open>
  A metric with its time replaced; \<open>untimed\<close> forgets the time. \<open>env_later\<close> is \<open>env_two\<close>
  at a later time and with another order of the range over \<open>procMetrics\<close>.
\<close>

definition retime :: "(nat \<Rightarrow> nat) \<Rightarrow> MetricType \<Rightarrow> MetricType" where
  "retime f m = m\<lparr>Timestamp' := f (Timestamp' m)\<rparr>"

definition untimed :: "MetricType \<Rightarrow> MetricType" where
  "untimed m = m\<lparr>Timestamp' := 0\<rparr>"

definition env_later :: env where
  "env_later = env_two\<lparr>range_order := (\<lambda>proc. map fst metricNames), Now := (\<lambda>n. 2000 + n)\<rparr>"

section \<open>Indexing and sequencing\<close>

lemma index_in_range: "i < length xs \<Longrightarrow> index xs i = Inr (xs ! i)"
  by (simp add: index_def)

lemma index_out_of_range:
  "\<not> i < length xs \<Longrightarrow> index xs i = Inl (Panicked (IndexOutOfRange i (length xs)))"
  by (simp add: index_def)

lemma and_then_Inr [simp]: "and_then (Inr x) f = f x"
  by (simp add: and_then_def)

lemma and_then_Inl [simp]: "and_then (Inl x) f = Inl x"
  by (simp add: and_then_def)

section \<open>ParseUint\<close>

lemma ParseUint_examples:
  "ParseUint ''100'' = (100, None)"
  "ParseUint ''4196'' = (4196, None)"
  "ParseUint ''4096'' = (4096, None)"
  "ParseUint ''8192'' = (8192, None)"
  "ParseUint ''0'' = (0, None)"
  "ParseUint ''18446744073709551616'' = (18446744073709551615, Some ErrRange)"
  "ParseUint ''abc'' = (0, Some ErrSyntax)"
  by (simp_all add: ParseUint_def is_digit_def digit_val_def cutoff_def maxUint64_def
        word_le_nat_alt word_less_nat_alt)

lemma ParseUint_loop_error_value:
  "ParseUint_loop n s = (v, Some err) \<Longrightarrow>
     (err = ErrSyntax \<longrightarrow> v = 0) \<and> (err = ErrRange \<longrightarrow> v = maxUint64)"
  by (induction n s rule: ParseUint_loop.induct) (auto simp: Let_def split: if_splits)

lemma ParseUint_error_value:
  assumes "snd (ParseUint s) = Some err"
  shows "(err = ErrSyntax \<longrightarrow> fst (ParseUint s) = 0) \<and>
         (err = ErrRange \<longrightarrow> fst (ParseUint s) = 18446744073709551615)"
proof (cases "s = []")
  case True
  then show ?thesis using assms by (simp add: ParseUint_def)
next
  case False
  then have "ParseUint s = ParseUint_loop 0 s" by (simp add: ParseUint_def)
  then have "ParseUint_loop 0 s = (fst (ParseUint s), Some err)"
    using assms by (metis prod.collapse)
  from ParseUint_loop_error_value [OF this] show ?thesis by (simp add: maxUint64_def)
qed

lemma unat_digit_val: "is_digit c \<Longrightarrow> unat (digit_val c) \<le> 9"
proof -
  assume d: "is_digit c"
  then have "(of_char c :: nat) - 48 \<le> 9" unfolding is_digit_def by linarith
  then have "unat (of_nat ((of_char c :: nat) - 48) :: 64 word) = (of_char c :: nat) - 48"
    by (simp add: unat_of_nat)
  then show ?thesis using \<open>(of_char c :: nat) - 48 \<le> 9\<close> by (simp add: digit_val_def)
qed

lemma ParseUint_loop_step:
  assumes d: "is_digit c" and n: "unat n < 10 ^ k" and k: "k \<le> 18"
  shows "ParseUint_loop n (c # cs) = ParseUint_loop (n * 10 + digit_val c) cs"
    and "unat (n * 10 + digit_val c) < 10 ^ Suc k"
proof -
  have p: "(10::nat) ^ k \<le> 10 ^ 18"
    by (rule power_increasing) (use k in simp_all)
  then have n18: "unat n < 10 ^ 18" using n by linarith
  have "unat cutoff = 1844674407370955162" by (simp add: cutoff_def maxUint64_def)
  then have nc: "\<not> n \<ge> cutoff" using n18 by (simp add: word_le_nat_alt)
  have m: "unat (n * 10) = unat n * 10"
  proof -
    have "unat n * unat (10 :: 64 word) < 2 ^ 64" using n18 by simp
    then show ?thesis using unat_mult_lem [of n "10 :: 64 word"] by simp
  qed
  have dv: "unat (digit_val c) \<le> 9" using d by (rule unat_digit_val)
  have a: "unat (n * 10 + digit_val c) = unat n * 10 + unat (digit_val c)"
  proof -
    have "unat (n * 10) + unat (digit_val c) < 2 ^ 64" using m n18 dv by simp
    then show ?thesis using unat_add_lem [of "n * 10" "digit_val c"] m by simp
  qed
  have ge: "\<not> n * 10 + digit_val c < n * 10" using a m by (simp add: word_less_nat_alt)
  have le: "\<not> n * 10 + digit_val c > maxUint64"
  proof -
    have "unat (n * 10 + digit_val c) < 2 ^ 64" using a n18 dv by simp
    then show ?thesis by (simp add: word_less_nat_alt maxUint64_def)
  qed
  show "ParseUint_loop n (c # cs) = ParseUint_loop (n * 10 + digit_val c) cs"
    using d nc ge le by (simp add: Let_def)
  have "unat n * 10 + unat (digit_val c) < 10 * 10 ^ k" using n dv by linarith
  then show "unat (n * 10 + digit_val c) < 10 ^ Suc k" using a by simp
qed

lemma ParseUint_loop_syntax:
  assumes "j < length s" "\<not> is_digit (s ! j)" "\<forall>i<j. is_digit (s ! i)" "unat n < 10 ^ k" "k + j \<le> 19"
  shows "ParseUint_loop n s = (0, Some ErrSyntax)"
  using assms
proof (induction s arbitrary: n k j)
  case Nil
  then show ?case by simp
next
  case (Cons c cs)
  show ?case
  proof (cases j)
    case 0
    with Cons.prems show ?thesis by simp
  next
    case (Suc j')
    have d: "is_digit c" using Cons.prems(3) Suc by auto
    have k: "k \<le> 18" using Cons.prems(5) Suc by simp
    note step = ParseUint_loop_step(1) [OF d Cons.prems(4) k, of cs]
      ParseUint_loop_step(2) [OF d Cons.prems(4) k]
    have "ParseUint_loop (n * 10 + digit_val c) cs = (0, Some ErrSyntax)"
    proof (rule Cons.IH [of j' _ "Suc k"])
      show "j' < length cs" using Cons.prems(1) Suc by simp
      show "\<not> is_digit (cs ! j')" using Cons.prems(2) Suc by simp
      show "\<forall>i<j'. is_digit (cs ! i)" using Cons.prems(3) Suc by auto
      show "unat (n * 10 + digit_val c) < 10 ^ Suc k" by (rule step(2))
      show "Suc k + j' \<le> 19" using Cons.prems(5) Suc by simp
    qed
    then show ?thesis using step(1) by simp
  qed
qed

lemma ParseUint_malformed:
  assumes "malformed s"
  shows "ParseUint s = (0, Some ErrSyntax)"
proof (cases "s = []")
  case True
  then show ?thesis by (simp add: ParseUint_def)
next
  case False
  with assms obtain j0 where j0: "j0 < min 19 (length s)" "\<not> is_digit (s ! j0)"
    by (auto simp: malformed_def)
  define j where "j = (LEAST i. \<not> is_digit (s ! i))"
  have nd: "\<not> is_digit (s ! j)" unfolding j_def using j0(2) by (rule LeastI)
  have le: "j \<le> j0" unfolding j_def using j0(2) by (rule Least_le)
  have first: "\<forall>i<j. is_digit (s ! i)"
    unfolding j_def using not_less_Least by blast
  have "ParseUint_loop 0 s = (0, Some ErrSyntax)"
  proof (rule ParseUint_loop_syntax [of j s 0 0])
    show "j < length s" using le j0(1) by simp
    show "\<not> is_digit (s ! j)" by (rule nd)
    show "\<forall>i<j. is_digit (s ! i)" by (rule first)
    show "unat (0 :: 64 word) < 10 ^ 0" by simp
    show "0 + j \<le> 19" using le j0(1) by simp
  qed
  with False show ?thesis by (simp add: ParseUint_def)
qed

section \<open>The map of setProcMetrics\<close>

lemma setProcMetrics_Inr:
  assumes "29 \<le> length (Stat proc)"
  shows "setProcMetrics proc = Inr (procMetrics_of proc)"
  using assms
  by (simp add: procMetrics_of_def setProcMetrics_def index_in_range Let_def)

lemma procMetrics_of_ps_vm:
  "29 \<le> length (Stat proc) \<Longrightarrow>
   procMetrics_of proc ''ps_vm'' = Some (GUint64 (fst (ParseUint (Stat proc ! 22))))"
  by (simp add: procMetrics_of_def setProcMetrics_def index_in_range Let_def)

lemma procMetrics_of_ps_stacksize:
  "29 \<le> length (Stat proc) \<Longrightarrow>
   procMetrics_of proc ''ps_stacksize'' =
     Some (GUint64 (let a = fst (ParseUint (Stat proc ! 27)); b = fst (ParseUint (Stat proc ! 28))
                    in if a > b then a - b else b - a))"
  by (simp add: procMetrics_of_def setProcMetrics_def index_in_range Let_def)

lemma procMetrics_of_parsed:
  assumes "29 \<le> length (Stat proc)"
  shows "procMetrics_of proc ''ps_rss'' = Some (GUint64 (fst (ParseUint (Stat proc ! 23))))"
    and "procMetrics_of proc ''ps_cputime_user'' = Some (GUint64 (fst (ParseUint (Stat proc ! 13))))"
    and "procMetrics_of proc ''ps_cputime_system'' = Some (GUint64 (fst (ParseUint (Stat proc ! 14))))"
    and "procMetrics_of proc ''ps_pagefaults_min'' = Some (GUint64 (fst (ParseUint (Stat proc ! 9))))"
    and "procMetrics_of proc ''ps_pagefaults_maj'' = Some (GUint64 (fst (ParseUint (Stat proc ! 11))))"
  using assms
  by (simp_all add: procMetrics_of_def setProcMetrics_def index_in_range Let_def)

lemma procMetrics_of_copied:
  assumes "29 \<le> length (Stat proc)"
  shows "procMetrics_of proc ''ps_data'' = Some (GUint64 (VmData proc))"
    and "procMetrics_of proc ''ps_code'' = Some (GUint64 (VmCode proc))"
    and "procMetrics_of proc ''ps_disk_octets_rchar'' = Some (GUint64 (Io_at proc ''rchar''))"
    and "procMetrics_of proc ''ps_disk_octets_wchar'' = Some (GUint64 (Io_at proc ''wchar''))"
    and "procMetrics_of proc ''ps_disk_ops_syscr'' = Some (GUint64 (Io_at proc ''syscr''))"
    and "procMetrics_of proc ''ps_disk_ops_syscw'' = Some (GUint64 (Io_at proc ''syscw''))"
    and "procMetrics_of proc ''ps_cmd_line'' = Some (GString (CmdLine proc))"
    and "procMetrics_of proc ''ps_cmd'' = Some (GString (Cmd proc))"
  using assms
  by (simp_all add: procMetrics_of_def setProcMetrics_def index_in_range Let_def)

lemma dom_fold_upd: "dom (fold (\<lambda>k m. m(k \<mapsto> v)) ks m0) = set ks \<union> dom m0"
  by (induction ks arbitrary: m0) auto

lemma metricNames_keys:
  "''ps_vm'' \<in> set (map fst metricNames)"
  "''ps_rss'' \<in> set (map fst metricNames)"
  "''ps_data'' \<in> set (map fst metricNames)"
  "''ps_code'' \<in> set (map fst metricNames)"
  "''ps_stacksize'' \<in> set (map fst metricNames)"
  "''ps_cputime_user'' \<in> set (map fst metricNames)"
  "''ps_cputime_system'' \<in> set (map fst metricNames)"
  "''ps_pagefaults_min'' \<in> set (map fst metricNames)"
  "''ps_pagefaults_maj'' \<in> set (map fst metricNames)"
  "''ps_disk_ops_syscr'' \<in> set (map fst metricNames)"
  "''ps_disk_ops_syscw'' \<in> set (map fst metricNames)"
  "''ps_disk_octets_rchar'' \<in> set (map fst metricNames)"
  "''ps_disk_octets_wchar'' \<in> set (map fst metricNames)"
  "''ps_cmd_line'' \<in> set (map fst metricNames)"
  "''ps_cmd'' \<in> set (map fst metricNames)"
  by (simp_all add: metricNames_def)

lemma dom_procMetrics_of:
  "29 \<le> length (Stat proc) \<Longrightarrow> dom (procMetrics_of proc) = set (map fst metricNames)"
  by (simp add: procMetrics_of_def setProcMetrics_def index_in_range Let_def dom_fold_upd
        insert_absorb metricNames_keys del: set_map)

lemma uint_abs_diff:
  fixes a b :: "64 word"
  shows "uint (if a > b then a - b else b - a) = \<bar>uint a - uint b\<bar>"
proof (cases "a > b")
  case True
  then have "b \<le> a" by simp
  then have "uint (a - b) = uint a - uint b" by (simp add: uint_minus_simple_alt)
  moreover have "uint b \<le> uint a" using \<open>b \<le> a\<close> by (simp add: word_le_def)
  ultimately show ?thesis using True by simp
next
  case False
  then have le: "a \<le> b" by simp
  then have "uint (b - a) = uint b - uint a" by (simp add: uint_minus_simple_alt)
  moreover have "uint a \<le> uint b" using le by (simp add: word_le_def)
  ultimately show ?thesis using False by simp
qed

lemma abs_diff_max_min:
  fixes a b :: "64 word"
  shows "(if a > b then a - b else b - a) = max a b - min a b"
  by (auto simp: max_def min_def)

lemma distinct_metricNames: "distinct (map fst metricNames)"
  by (simp add: metricNames_def)

lemma card_metricNames: "card (set (map fst metricNames)) = 15"
proof -
  have "card (set (map fst metricNames)) = length (map fst metricNames)"
    using distinct_metricNames by (rule distinct_card)
  then show ?thesis by (simp add: metricNames_def)
qed

section \<open>Counting the states\<close>

lemma fold_upd_const:
  "fold (\<lambda>k m. m(k \<mapsto> v)) ks m0 = (\<lambda>x. if x \<in> set ks then Some v else m0 x)"
  by (induction ks arbitrary: m0) (auto simp: fun_eq_iff)

lemma init_stateCount_apply:
  "init_stateCount sts s = (if s \<in> set (Values sts) then Some 0 else None)"
  by (simp add: init_stateCount_def fold_upd_const)

lemma count_proc_apply:
  "count_proc sts p m s =
     (if s = States_at sts (State p) then Some ((case m s of None \<Rightarrow> 0 | Some n \<Rightarrow> n) + 1)
      else m s)"
  by (simp add: count_proc_def Let_def)

lemma fold_count_proc:
  "fold (count_proc sts) stats m s =
     (if procs_in_state sts stats s = 0 then m s
      else Some ((case m s of None \<Rightarrow> 0 | Some n \<Rightarrow> n) + int (procs_in_state sts stats s)))"
proof (induction stats arbitrary: m)
  case Nil
  then show ?case by (simp add: procs_in_state_def)
next
  case (Cons p ps)
  have "fold (count_proc sts) (p # ps) m s = fold (count_proc sts) ps (count_proc sts p m) s"
    by simp
  also have "\<dots> = (if procs_in_state sts ps s = 0 then count_proc sts p m s
      else Some ((case count_proc sts p m s of None \<Rightarrow> 0 | Some n \<Rightarrow> n) + int (procs_in_state sts ps s)))"
    by (rule Cons.IH)
  also have "\<dots> = (if procs_in_state sts (p # ps) s = 0 then m s
      else Some ((case m s of None \<Rightarrow> 0 | Some n \<Rightarrow> n) + int (procs_in_state sts (p # ps) s)))"
    by (simp add: count_proc_apply procs_in_state_def)
  finally show ?case .
qed

lemma count_states_known:
  assumes "s \<in> set (Values sts)"
  shows "count_states sts stats s = Some (int (procs_in_state sts stats s))"
  using assms by (simp add: count_states_def fold_count_proc init_stateCount_apply)

lemma procs_in_state_mset:
  assumes "mset stats' = mset stats"
  shows "procs_in_state sts stats' s = procs_in_state sts stats s"
proof -
  have "size (filter_mset (\<lambda>proc. States_at sts (State proc) = s) (mset stats'))
      = size (filter_mset (\<lambda>proc. States_at sts (State proc) = s) (mset stats))"
    using assms by simp
  then show ?thesis
    by (simp add: procs_in_state_def flip: mset_filter)
qed

lemma count_states_mset:
  assumes "mset stats' = mset stats"
  shows "count_states sts stats' = count_states sts stats"
  by (rule ext) (simp add: count_states_def fold_count_proc procs_in_state_mset [OF assms])

section \<open>GetMetricTypes\<close>

lemma fold_append_one: "fold (\<lambda>x acc. acc @ [f x]) xs acc = acc @ map f xs"
  by (induction xs arbitrary: acc) simp_all

lemma GetMetricTypes_namespaces:
  "map Namespace' (GetMetricTypes order sts cfg) =
     map metric_pattern order @ map state_pattern (Values sts)"
  by (simp add: GetMetricTypes_def Let_def fold_append_one metric_pattern_def state_pattern_def
        NewNamespace_def AddDynamicElement_def AddStaticElements_def
        pluginVendor_def fs_def pluginName_def comp_def)

lemma inj_metric_pattern: "inj metric_pattern"
  by (rule injI) (simp add: metric_pattern_def)

lemma inj_state_pattern: "inj state_pattern"
  by (rule injI) (simp add: state_pattern_def)

lemma metric_pattern_neq_state_pattern: "metric_pattern d \<noteq> state_pattern s"
proof
  assume "metric_pattern d = state_pattern s"
  then have "length (metric_pattern d) = length (state_pattern s)" by simp
  then show False by (simp add: metric_pattern_def state_pattern_def)
qed

lemma distinct_patterns:
  assumes "distinct order" "distinct (Values sts)"
  shows "distinct (map metric_pattern order @ map state_pattern (Values sts))"
proof -
  have "inj_on metric_pattern (set order)"
    using inj_metric_pattern by (auto simp: inj_on_def)
  then have "distinct (map metric_pattern order)"
    using assms(1) by (simp add: distinct_map)
  moreover have "inj_on state_pattern (set (Values sts))"
    using inj_state_pattern by (auto simp: inj_on_def)
  then have "distinct (map state_pattern (Values sts))"
    using assms(2) by (simp add: distinct_map)
  moreover have "set (map metric_pattern order) \<inter> set (map state_pattern (Values sts)) = {}"
    using metric_pattern_neq_state_pattern by auto
  ultimately show ?thesis by simp
qed

lemma count_list_distinct:
  assumes "distinct xs" "x \<in> set xs"
  shows "count_list xs x = 1"
  using assms by (induction xs) auto

section \<open>Split\<close>

lemma Split_not_Nil: "Split s sep \<noteq> []"
  by (induction s) (auto split: list.splits)

lemma hd_Split: "hd (Split s sep) = takeWhile (\<lambda>c. c \<noteq> sep) s"
  by (induction s) (auto split: list.splits simp: Split_not_Nil)

lemma Split_without_sep: "sep \<notin> set s \<Longrightarrow> Split s sep = [s]"
  by (induction s) auto

lemma Split_with_sep: "sep \<in> set s \<Longrightarrow> tl (Split s sep) \<noteq> []"
  by (induction s) (auto split: list.splits simp: Split_not_Nil)

lemma last_Split: "last (Split s sep) = rev (takeWhile (\<lambda>c. c \<noteq> sep) (rev s))"
proof (induction s)
  case Nil
  then show ?case by simp
next
  case (Cons c cs)
  show ?case
  proof (cases "sep \<in> set cs")
    case True
    then have t: "tl (Split cs sep) \<noteq> []" by (rule Split_with_sep)
    then obtain w w' ws where sp: "Split cs sep = w # w' # ws"
      by (cases "Split cs sep"; cases "tl (Split cs sep)") auto
    have "last (Split (c # cs) sep) = last (Split cs sep)"
      using sp by simp
    moreover have "takeWhile (\<lambda>c. c \<noteq> sep) (rev cs @ [c]) = takeWhile (\<lambda>c. c \<noteq> sep) (rev cs)"
      using True by (auto simp: takeWhile_append)
    ultimately show ?thesis using Cons.IH by simp
  next
    case False
    then have sp: "Split cs sep = [cs]" by (rule Split_without_sep)
    show ?thesis
    proof (cases "c = sep")
      case True
      then show ?thesis using sp False by (simp add: takeWhile_append)
    next
      case False
      then show ?thesis using sp \<open>sep \<notin> set cs\<close> by (simp add: takeWhile_append)
    qed
  qed
qed

lemma index_Split_first: "index (Split s sep) 0 = Inr (takeWhile (\<lambda>c. c \<noteq> sep) s)"
  using Split_not_Nil [of s sep] hd_Split [of s sep]
  by (cases "Split s sep") (simp_all add: index_def)

lemma index_Split_last:
  "index (Split s sep) (length (Split s sep) - Suc 0) = Inr (rev (takeWhile (\<lambda>c. c \<noteq> sep) (rev s)))"
  using Split_not_Nil [of s sep] last_Split [of s sep]
  by (simp add: index_def last_conv_nth)

section \<open>The loops of CollectMetrics\<close>

lemma procMetrics_loop_closed:
  assumes "distinct ks"
  shows "procMetrics_loop e ns proc pm metrics ks =
     (if ks = [] then Inr metrics
      else if length ns < 7 then Inl (Panicked (IndexOutOfRange 6 (length ns)))
      else Inr (metrics @
             (if Value (ns ! 6) \<in> set ks
              then [filled_metric ns proc (pm (Value (ns ! 6))) (Now e (length metrics))]
              else [])))"
  using assms
proof (induction ks arbitrary: metrics)
  case Nil
  then show ?case by simp
next
  case (Cons k ks)
  show ?case
  proof (cases "length ns < 7")
    case True
    then show ?thesis by (simp add: index_def)
  next
    case False
    then have i6: "index ns 6 = Inr (ns ! 6)" by (simp add: index_def)
    have d: "distinct ks" and nk: "k \<notin> set ks" using Cons.prems by simp_all
    show ?thesis
    proof (cases "k = Value (ns ! 6)")
      case True
      then have "Value (ns ! 6) \<notin> set ks" using nk by simp
      then show ?thesis
        using True False i6 Cons.IH [OF d]
        by (simp add: Let_def index_Split_first index_Split_last process_name_def filled_metric_def)
    next
      case False
      then show ?thesis
        using \<open>\<not> length ns < 7\<close> i6 Cons.IH [OF d] by auto
    qed
  qed
qed

lemma procMetrics_loop_total:
  assumes "7 \<le> length ns"
  shows "\<exists>metrics'. procMetrics_loop e ns proc pm metrics ks = Inr metrics'"
  using assms
proof (induction ks arbitrary: metrics)
  case Nil
  then show ?case by simp
next
  case (Cons k ks)
  then have i6: "index ns 6 = Inr (ns ! 6)" by (simp add: index_def)
  show ?case
    using i6 Cons.IH [OF Cons.prems] by (simp add: Let_def index_Split_first index_Split_last)
qed



lemma stats_loop_total:
  assumes "\<forall>proc \<in> set stats. 29 \<le> length (Stat proc)" and "7 \<le> length ns"
  shows "\<exists>metrics'. stats_loop e ns metrics stats = Inr metrics'"
  using assms(1)
proof (induction stats arbitrary: metrics)
  case Nil
  then show ?case by simp
next
  case (Cons proc stats)
  have sp: "setProcMetrics proc = Inr (procMetrics_of proc)"
    using Cons.prems by (simp add: setProcMetrics_Inr)
  obtain metrics' where pl:
    "procMetrics_loop e ns proc (procMetrics_of proc) metrics (range_order e proc) = Inr metrics'"
    using procMetrics_loop_total [OF assms(2)] by blast
  show ?case
    using Cons.IH [of metrics'] Cons.prems by (simp add: sp pl)
qed



lemma Namespace_IsDynamic_iff: "fst (Namespace_IsDynamic ns) \<longleftrightarrow> (\<exists>el \<in> set ns. IsDynamic el)"
proof -
  have "fst (Namespace_IsDynamic ns) \<longleftrightarrow> (\<exists>i < length ns. IsDynamic (ns ! i))"
    by (auto simp: Namespace_IsDynamic_def Let_def filter_empty_conv)
  also have "\<dots> \<longleftrightarrow> (\<exists>el \<in> set ns. IsDynamic el)"
    by (metis in_set_conv_nth)
  finally show ?thesis .
qed


lemma collect_one_static:
  assumes "4 \<le> length (Namespace' metricType)"
    and "\<forall>el \<in> set (Namespace' metricType). \<not> IsDynamic el"
  shows "collect_one e stats stateCount metrics metricType =
     (if Contains (Values (States e)) (Value (Namespace' metricType ! 3)) then
        (case stateCount (Value (Namespace' metricType ! 3)) of
           Some val \<Rightarrow>
             Inr (metrics @
               [\<lparr>Namespace' = Namespace' metricType, Config' = None, Data' = Some (GInt val),
                 Timestamp' = Now e (length metrics), Unit' = [],
                 Description' = ''Number of processes in '' @ Value (Namespace' metricType ! 3) @ '' state''\<rparr>])
         | None \<Rightarrow> Inr metrics)
      else Inr metrics)"
proof -
  have "\<not> fst (Namespace_IsDynamic (Namespace' metricType))"
    using assms(2) unfolding Namespace_IsDynamic_iff by blast
  then show ?thesis
    using assms(1) by (simp add: collect_one_def Let_def)
qed

lemma Contains_iff: "Contains xs x \<longleftrightarrow> x \<in> set xs"
  by (induction xs) auto

lemma CollectMetrics_run_fetched:
  assumes "GetConfigItem e metricType ''proc_path'' = Inr (GString path)"
    and "GetStats e path = Inr stats"
  shows "CollectMetrics_run e (metricType # metricTypes) =
     ([Call_GetConfigItem metricType, Call_GetStats path],
      metricTypes_loop e stats (count_states (States e) stats) [] (metricType # metricTypes))"
  using assms by (simp add: CollectMetrics_run_def index_def Let_def)

section \<open>Evaluation of the examples\<close>

lemma Itoa_examples:
  "Itoa 100 = ''100''"
  "Itoa 200 = ''200''"
  "Itoa 3 = ''3''"
  by (simp_all add: Itoa_def digits10.simps)



lemma metricTypes_loop_single:
  "metricTypes_loop e stats stateCount metrics [metricType] =
     collect_one e stats stateCount metrics metricType"
  by (cases "collect_one e stats stateCount metrics metricType") simp_all

lemma CollectMetrics_single:
  assumes "GetConfigItem e metricType ''proc_path'' = Inr (GString path)"
    and "GetStats e path = Inr stats"
  shows "CollectMetrics e [metricType] =
     collect_one e stats (count_states (States e) stats) [] metricType"
  using CollectMetrics_run_fetched [OF assms, of "[]"]
  by (simp add: CollectMetrics_def metricTypes_loop_single del: metricTypes_loop.simps)

section \<open>Failures of CollectMetrics\<close>

lemma collect_one_short:
  "length (Namespace' metricType) < 4 \<Longrightarrow>
   collect_one e stats stateCount metrics metricType =
     Inl (namespace_length_error (length (Namespace' metricType)))"
  by (simp add: collect_one_def namespace_length_error_def Let_def)

lemma collect_one_Inr_length:
  "collect_one e stats stateCount metrics metricType = Inr metrics' \<Longrightarrow>
   4 \<le> length (Namespace' metricType)"
  by (rule ccontr) (simp add: collect_one_short)

lemma collect_one_total:
  assumes "resolvable (Namespace' metricType)"
    and "\<forall>proc \<in> set stats. 29 \<le> length (Stat proc)"
  shows "\<exists>metrics'. collect_one e stats stateCount metrics metricType = Inr metrics'"
proof (cases "\<exists>el \<in> set (Namespace' metricType). IsDynamic el")
  case False
  then have "\<forall>el \<in> set (Namespace' metricType). \<not> IsDynamic el" by blast
  moreover have "4 \<le> length (Namespace' metricType)"
    using assms(1) by (simp add: resolvable_def)
  ultimately show ?thesis
    by (simp add: collect_one_static split: option.split)
next
  case True
  then have len: "7 \<le> length (Namespace' metricType)"
    using assms(1) by (simp add: resolvable_def)
  have dyn: "fst (Namespace_IsDynamic (Namespace' metricType))"
    using True by (simp add: Namespace_IsDynamic_iff)
  obtain metrics' where "stats_loop e (Namespace' metricType) metrics stats = Inr metrics'"
    using stats_loop_total [OF assms(2) len] by blast
  then show ?thesis
    using len dyn by (simp add: collect_one_def Let_def index_def)
qed

lemma metricTypes_loop_Inr_length:
  "metricTypes_loop e stats stateCount metrics metricTypes = Inr metrics' \<Longrightarrow>
   \<forall>metricType \<in> set metricTypes. 4 \<le> length (Namespace' metricType)"
proof (induction metricTypes arbitrary: metrics)
  case Nil
  then show ?case by simp
next
  case (Cons metricType metricTypes)
  then obtain m where m: "collect_one e stats stateCount metrics metricType = Inr m"
    and rest: "metricTypes_loop e stats stateCount m metricTypes = Inr metrics'"
    by (cases "collect_one e stats stateCount metrics metricType") simp_all
  show ?case
    using collect_one_Inr_length [OF m] Cons.IH [OF rest] by simp
qed

lemma metricTypes_loop_first_short:
  assumes "\<forall>metricType \<in> set pre. resolvable (Namespace' metricType)"
    and "\<forall>proc \<in> set stats. 29 \<le> length (Stat proc)"
    and "length (Namespace' short) < 4"
  shows "metricTypes_loop e stats stateCount metrics (pre @ short # post) =
     Inl (namespace_length_error (length (Namespace' short)))"
  using assms(1)
proof (induction pre arbitrary: metrics)
  case Nil
  then show ?case using assms(3) by (simp add: collect_one_short)
next
  case (Cons metricType pre)
  have "resolvable (Namespace' metricType)"
    using Cons.prems by simp
  from collect_one_total [OF this assms(2)]
  obtain m where m: "collect_one e stats stateCount metrics metricType = Inr m"
    by blast
  show ?case
    using Cons.IH [of m] Cons.prems by (simp add: m)
qed

lemma CollectMetrics_Inr_fetched:
  assumes "CollectMetrics e metricTypes = Inr metrics"
  shows "\<exists>path stats. GetStats e path = Inr stats \<and>
     metricTypes_loop e stats (count_states (States e) stats) [] metricTypes = Inr metrics"
  using assms
  by (auto simp: CollectMetrics_def CollectMetrics_run_def Let_def
      split: sum.splits gvalue.splits)

section \<open>Independence of the order of ranging and of the clock\<close>

lemma untimed_retime: "untimed = retime (\<lambda>t. 0)"
  by (simp add: fun_eq_iff untimed_def retime_def)

lemma retime_id: "retime (\<lambda>t. t) = (\<lambda>m. m)"
  by (simp add: fun_eq_iff retime_def)

lemma retime_filled_metric: "retime f (filled_metric ns proc val ts) = filled_metric ns proc val (f ts)"
  by (simp add: retime_def filled_metric_def)

lemma map_sum_eq_cases:
  assumes "map_sum id g a = map_sum id g b"
  obtains x where "a = Inl x" "b = Inl x" | u v where "a = Inr u" "b = Inr v" "g u = g v"
  using assms by (cases a; cases b) auto

lemma procMetrics_loop_retime:
  assumes "distinct ks" "distinct ks'" "set ks' = set ks"
    and "\<forall>n. f (Now e' n) = f (Now e n)"
    and "map (retime f) metrics' = map (retime f) metrics"
  shows "map_sum id (map (retime f)) (procMetrics_loop e' ns proc pm metrics' ks') =
         map_sum id (map (retime f)) (procMetrics_loop e ns proc pm metrics ks)"
proof -
  have len: "length metrics' = length metrics"
    using assms(5) by (rule map_eq_imp_length_eq)
  have nil: "ks' = [] \<longleftrightarrow> ks = []"
    using assms(3) by (metis set_empty)
  show ?thesis
    unfolding procMetrics_loop_closed [OF assms(1)] procMetrics_loop_closed [OF assms(2)]
    using assms(3,4,5) len nil by (simp add: retime_filled_metric)
qed

lemma stats_loop_retime:
  assumes "\<forall>proc \<in> set stats. is_range_order (range_order e proc)"
    and "\<forall>proc \<in> set stats. is_range_order (range_order e' proc)"
    and "\<forall>n. f (Now e' n) = f (Now e n)"
    and "map (retime f) metrics' = map (retime f) metrics"
  shows "map_sum id (map (retime f)) (stats_loop e' ns metrics' stats) =
         map_sum id (map (retime f)) (stats_loop e ns metrics stats)"
  using assms(1,2,4)
proof (induction stats arbitrary: metrics metrics')
  case Nil
  then show ?case by simp
next
  case (Cons proc stats)
  show ?case
  proof (cases "setProcMetrics proc")
    case (Inl x)
    then show ?thesis by simp
  next
    case (Inr pm)
    have o: "distinct (range_order e proc)" "distinct (range_order e' proc)"
      "set (range_order e' proc) = set (range_order e proc)"
      using Cons.prems(1,2) by (simp_all add: is_range_order_def)
    have "map_sum id (map (retime f)) (procMetrics_loop e' ns proc pm metrics' (range_order e' proc)) =
        map_sum id (map (retime f)) (procMetrics_loop e ns proc pm metrics (range_order e proc))"
      using o assms(3) Cons.prems(3) by (rule procMetrics_loop_retime)
    then show ?thesis
    proof (cases rule: map_sum_eq_cases)
      case (1 x)
      then show ?thesis using Inr by simp
    next
      case (2 u v)
      have "map_sum id (map (retime f)) (stats_loop e' ns u stats) =
          map_sum id (map (retime f)) (stats_loop e ns v stats)"
        using Cons.prems(1,2) 2(3) by (intro Cons.IH) simp_all
      then show ?thesis using Inr 2 by (simp add: id_def)
    qed
  qed
qed

lemma collect_one_retime:
  assumes "States e' = States e"
    and "\<forall>proc \<in> set stats. is_range_order (range_order e proc)"
    and "\<forall>proc \<in> set stats. is_range_order (range_order e' proc)"
    and "\<forall>n. f (Now e' n) = f (Now e n)"
    and "map (retime f) metrics' = map (retime f) metrics"
  shows "map_sum id (map (retime f)) (collect_one e' stats stateCount metrics' metricType) =
         map_sum id (map (retime f)) (collect_one e stats stateCount metrics metricType)"
proof -
  have len: "length metrics' = length metrics"
    using assms(5) by (rule map_eq_imp_length_eq)
  have loop: "map_sum id (map (retime f)) (stats_loop e' (Namespace' metricType) metrics' stats) =
      map_sum id (map (retime f)) (stats_loop e (Namespace' metricType) metrics stats)"
    using assms(2,3,4,5) by (rule stats_loop_retime)
  show ?thesis
    using assms(1,4,5) len loop
    by (simp add: collect_one_def Let_def index_def retime_def split: option.split)
qed

lemma metricTypes_loop_retime:
  assumes "States e' = States e"
    and "\<forall>proc \<in> set stats. is_range_order (range_order e proc)"
    and "\<forall>proc \<in> set stats. is_range_order (range_order e' proc)"
    and "\<forall>n. f (Now e' n) = f (Now e n)"
    and "map (retime f) metrics' = map (retime f) metrics"
  shows "map_sum id (map (retime f)) (metricTypes_loop e' stats stateCount metrics' metricTypes) =
         map_sum id (map (retime f)) (metricTypes_loop e stats stateCount metrics metricTypes)"
  using assms(5)
proof (induction metricTypes arbitrary: metrics metrics')
  case Nil
  then show ?case by simp
next
  case (Cons metricType metricTypes)
  have "map_sum id (map (retime f)) (collect_one e' stats stateCount metrics' metricType) =
      map_sum id (map (retime f)) (collect_one e stats stateCount metrics metricType)"
    using assms(1-4) Cons.prems by (rule collect_one_retime)
  then show ?case
  proof (cases rule: map_sum_eq_cases)
    case (1 x)
    then show ?thesis by simp
  next
    case (2 u v)
    then show ?thesis using Cons.IH [OF 2(3)] by simp
  qed
qed

lemma CollectMetrics_retime:
  assumes "States e' = States e" and "GetConfigItem e' = GetConfigItem e" and "GetStats e' = GetStats e"
    and "\<forall>proc. is_range_order (range_order e proc)"
    and "\<forall>proc. is_range_order (range_order e' proc)"
    and "\<forall>n. f (Now e' n) = f (Now e n)"
  shows "map_sum id (map (retime f)) (CollectMetrics e' metricTypes) =
         map_sum id (map (retime f)) (CollectMetrics e metricTypes)"
proof -
  have loop: "map_sum id (map (retime f))
        (metricTypes_loop e' stats (count_states (States e) stats) [] metricTypes) =
      map_sum id (map (retime f))
        (metricTypes_loop e stats (count_states (States e) stats) [] metricTypes)" for stats
    using assms(1,4,5,6) by (intro metricTypes_loop_retime) simp_all
  show ?thesis
    using assms(1,2,3) loop
    by (simp add: CollectMetrics_def CollectMetrics_run_def Let_def
        split: sum.split gvalue.split)
qed

lemma CollectMetrics_calls_eq:
  assumes "GetConfigItem e' = GetConfigItem e" and "GetStats e' = GetStats e"
  shows "fst (CollectMetrics_run e' metricTypes) = fst (CollectMetrics_run e metricTypes)"
  using assms
  by (simp add: CollectMetrics_run_def Let_def split: sum.split gvalue.split)

section \<open>The claims\<close>

text \<open>
  C7. For a process record with the status fields that \<open>setProcMetrics\<close> reads, and any two
  texts \<open>s\<close> and \<open>t\<close> in the fields 27 and 28, \<open>ps_stacksize\<close> is the larger of the two parsed
  values minus the smaller; read as an integer it is the absolute difference of the two,
  so it is never negative; and it is the same with \<open>s\<close> and \<open>t\<close> swapped.
\<close>

theorem setProcMetrics_stacksize_abs_diff:
  assumes "29 \<le> length (Stat proc)"
  shows "\<exists>pm pm' d.
           setProcMetrics (proc\<lparr>Stat := (Stat proc)[27 := s, 28 := t]\<rparr>) = Inr pm \<and>
           setProcMetrics (proc\<lparr>Stat := (Stat proc)[27 := t, 28 := s]\<rparr>) = Inr pm' \<and>
           pm ''ps_stacksize'' = Some (GUint64 d) \<and>
           pm' ''ps_stacksize'' = Some (GUint64 d) \<and>
           d = max (fst (ParseUint s)) (fst (ParseUint t)) - min (fst (ParseUint s)) (fst (ParseUint t)) \<and>
           uint d = \<bar>uint (fst (ParseUint s)) - uint (fst (ParseUint t))\<bar>"
proof -
  let ?a = "fst (ParseUint s)" and ?b = "fst (ParseUint t)"
  let ?p = "proc\<lparr>Stat := (Stat proc)[27 := s, 28 := t]\<rparr>"
  let ?q = "proc\<lparr>Stat := (Stat proc)[27 := t, 28 := s]\<rparr>"
  let ?d = "max ?a ?b - min ?a ?b"
  have lp: "29 \<le> length (Stat ?p)" and lq: "29 \<le> length (Stat ?q)"
    using assms by simp_all
  have p: "procMetrics_of ?p ''ps_stacksize'' = Some (GUint64 (if ?a > ?b then ?a - ?b else ?b - ?a))"
    using assms procMetrics_of_ps_stacksize [OF lp] by (simp add: Let_def)
  have q: "procMetrics_of ?q ''ps_stacksize'' = Some (GUint64 (if ?b > ?a then ?b - ?a else ?a - ?b))"
    using assms procMetrics_of_ps_stacksize [OF lq] by (simp add: Let_def)
  have sym: "(if ?b > ?a then ?b - ?a else ?a - ?b) = ?d"
    by (simp add: abs_diff_max_min max.commute min.commute)
  have "uint ?d = \<bar>uint ?a - uint ?b\<bar>"
    using uint_abs_diff [of ?b ?a] by (simp add: abs_diff_max_min)
  with p q sym show ?thesis
    using setProcMetrics_Inr [OF lp] setProcMetrics_Inr [OF lq]
    by (simp add: abs_diff_max_min)
qed

theorem setProcMetrics_stacksize_abs_diff_witness:
  "29 \<le> length (Stat stack_proc) \<and>
   (\<exists>pm pm'.
      setProcMetrics (stack_proc\<lparr>Stat := (Stat stack_proc)[27 := ''100'', 28 := ''4196'']\<rparr>) = Inr pm \<and>
      setProcMetrics (stack_proc\<lparr>Stat := (Stat stack_proc)[27 := ''4196'', 28 := ''100'']\<rparr>) = Inr pm' \<and>
      pm ''ps_stacksize'' = Some (GUint64 4096) \<and> pm' ''ps_stacksize'' = Some (GUint64 4096))"
proof -
  have h: "29 \<le> length (Stat stack_proc)"
    by (simp add: stack_proc_def)
  show ?thesis
    using h setProcMetrics_stacksize_abs_diff [OF h, of "''100''" "''4196''"]
    by (simp add: ParseUint_examples)
qed

text \<open>
  C3, as amended. For a process record with at least 29 status fields, \<open>setProcMetrics\<close>
  panics nowhere and returns a map whose keys are the 15 declared metric names. Each of
  \<open>ps_vm\<close>, \<open>ps_rss\<close>, \<open>ps_cputime_user\<close>, \<open>ps_cputime_system\<close>, \<open>ps_pagefaults_min\<close>,
  \<open>ps_pagefaults_maj\<close> is the value that \<open>ParseUint\<close> returns for its field, the error
  dropped, and \<open>ps_stacksize\<close> is the difference of the two values returned for the fields
  27 and 28: that value is 0 for a syntax error (so for every malformed text), but it is
  \<open>2^64 - 1\<close> for a decimal text that does not fit 64 bits. \<open>ps_data\<close>, \<open>ps_code\<close>, the four I/O
  counters, \<open>ps_cmd_line\<close> and \<open>ps_cmd\<close> are copied from the record.
\<close>

theorem setProcMetrics_all_keys:
  assumes "29 \<le> length (Stat proc)"
  shows "\<exists>pm. setProcMetrics proc = Inr pm \<and>
           dom pm = set (map fst metricNames) \<and> card (dom pm) = 15 \<and>
           pm ''ps_vm'' = Some (GUint64 (fst (ParseUint (Stat proc ! 22)))) \<and>
           pm ''ps_rss'' = Some (GUint64 (fst (ParseUint (Stat proc ! 23)))) \<and>
           pm ''ps_cputime_user'' = Some (GUint64 (fst (ParseUint (Stat proc ! 13)))) \<and>
           pm ''ps_cputime_system'' = Some (GUint64 (fst (ParseUint (Stat proc ! 14)))) \<and>
           pm ''ps_pagefaults_min'' = Some (GUint64 (fst (ParseUint (Stat proc ! 9)))) \<and>
           pm ''ps_pagefaults_maj'' = Some (GUint64 (fst (ParseUint (Stat proc ! 11)))) \<and>
           pm ''ps_stacksize'' =
             Some (GUint64 (max (fst (ParseUint (Stat proc ! 27))) (fst (ParseUint (Stat proc ! 28)))
                          - min (fst (ParseUint (Stat proc ! 27))) (fst (ParseUint (Stat proc ! 28))))) \<and>
           pm ''ps_data'' = Some (GUint64 (VmData proc)) \<and>
           pm ''ps_code'' = Some (GUint64 (VmCode proc)) \<and>
           pm ''ps_disk_octets_rchar'' = Some (GUint64 (Io_at proc ''rchar'')) \<and>
           pm ''ps_disk_octets_wchar'' = Some (GUint64 (Io_at proc ''wchar'')) \<and>
           pm ''ps_disk_ops_syscr'' = Some (GUint64 (Io_at proc ''syscr'')) \<and>
           pm ''ps_disk_ops_syscw'' = Some (GUint64 (Io_at proc ''syscw'')) \<and>
           pm ''ps_cmd_line'' = Some (GString (CmdLine proc)) \<and>
           pm ''ps_cmd'' = Some (GString (Cmd proc)) \<and>
           (\<forall>s. malformed s \<longrightarrow> ParseUint s = (0, Some ErrSyntax)) \<and>
           (\<forall>s. snd (ParseUint s) = Some ErrSyntax \<longrightarrow> fst (ParseUint s) = 0) \<and>
           (\<forall>s. snd (ParseUint s) = Some ErrRange \<longrightarrow> fst (ParseUint s) = 18446744073709551615)"
proof -
  have dom: "dom (procMetrics_of proc) = set (map fst metricNames)"
    using assms by (rule dom_procMetrics_of)
  have card: "card (dom (procMetrics_of proc)) = 15"
    unfolding dom by (rule card_metricNames)
  have stack: "procMetrics_of proc ''ps_stacksize'' =
      Some (GUint64 (max (fst (ParseUint (Stat proc ! 27))) (fst (ParseUint (Stat proc ! 28)))
                   - min (fst (ParseUint (Stat proc ! 27))) (fst (ParseUint (Stat proc ! 28)))))"
    using procMetrics_of_ps_stacksize [OF assms] by (simp add: Let_def abs_diff_max_min)
  have parse: "(\<forall>s. malformed s \<longrightarrow> ParseUint s = (0, Some ErrSyntax)) \<and>
      (\<forall>s. snd (ParseUint s) = Some ErrSyntax \<longrightarrow> fst (ParseUint s) = 0) \<and>
      (\<forall>s. snd (ParseUint s) = Some ErrRange \<longrightarrow> fst (ParseUint s) = 18446744073709551615)"
    using ParseUint_malformed ParseUint_error_value by blast
  show ?thesis
    apply (rule exI [of _ "procMetrics_of proc"])
    apply (intro conjI)
    using setProcMetrics_Inr [OF assms] dom card stack procMetrics_of_ps_vm [OF assms]
      procMetrics_of_parsed [OF assms] procMetrics_of_copied [OF assms] parse
    apply blast+
    done
qed

theorem setProcMetrics_all_keys_witness:
  "29 \<le> length (Stat malformed_proc) \<and> malformed (Stat malformed_proc ! 22) \<and>
   (\<exists>pm. setProcMetrics malformed_proc = Inr pm \<and> card (dom pm) = 15 \<and>
      pm ''ps_vm'' = Some (GUint64 0) \<and> pm ''ps_rss'' = Some (GUint64 0) \<and>
      pm ''ps_cputime_user'' = Some (GUint64 0) \<and> pm ''ps_cputime_system'' = Some (GUint64 0) \<and>
      pm ''ps_pagefaults_min'' = Some (GUint64 0) \<and> pm ''ps_pagefaults_maj'' = Some (GUint64 0) \<and>
      pm ''ps_stacksize'' = Some (GUint64 0) \<and>
      pm ''ps_data'' = Some (GUint64 3) \<and> pm ''ps_disk_octets_rchar'' = Some (GUint64 5) \<and>
      pm ''ps_disk_octets_wchar'' = Some (GUint64 0) \<and> pm ''ps_cmd'' = Some (GString ''sh''))"
proof -
  have h: "29 \<le> length (Stat malformed_proc)"
    by (simp add: malformed_proc_def)
  have m: "malformed ''n/a''"
    unfolding malformed_def by (intro disjI2 exI [of _ 0]) (simp add: is_digit_def)
  have p: "ParseUint ''n/a'' = (0, Some ErrSyntax)"
    by (simp add: ParseUint_def is_digit_def)
  show ?thesis
    using h m setProcMetrics_all_keys [OF h]
    by (auto simp: malformed_proc_def p Io_at_def)
qed

theorem setProcMetrics_overflow_counterexample:
  "snd (ParseUint (Stat overflow_proc ! 22)) = Some ErrRange \<and>
   map_sum id (\<lambda>pm. pm ''ps_vm'') (setProcMetrics overflow_proc)
     = Inr (Some (GUint64 18446744073709551615)) \<and>
   setProcMetrics short_proc = Inl (Panicked (IndexOutOfRange 22 0))"
proof -
  have l: "29 \<le> length (Stat overflow_proc)"
    by (simp add: overflow_proc_def)
  have f: "Stat overflow_proc ! 22 = ''18446744073709551616''"
    by (simp add: overflow_proc_def)
  have "setProcMetrics short_proc = Inl (Panicked (IndexOutOfRange 22 0))"
    by (simp add: setProcMetrics_def short_proc_def index_def Let_def)
  then show ?thesis
    using setProcMetrics_Inr [OF l] procMetrics_of_ps_vm [OF l]
    by (simp add: f ParseUint_examples)
qed

text \<open>
  C6. For every snapshot and every table of states, the map of state counts has every known
  state name as a key, and maps it to the number of processes in that state; for the empty
  snapshot the keys are the known state names and each maps to 0; and a permutation of the
  snapshot gives the same map.
\<close>

theorem count_states_aggregate:
  "set (Values sts) \<subseteq> dom (count_states sts stats) \<and>
   (\<forall>s \<in> set (Values sts). count_states sts stats s = Some (int (procs_in_state sts stats s))) \<and>
   (\<forall>s \<in> set (Values sts). count_states sts [] s = Some 0) \<and>
   dom (count_states sts []) = set (Values sts) \<and>
   (\<forall>stats'. mset stats' = mset stats \<longrightarrow> count_states sts stats' = count_states sts stats)"
proof (intro conjI)
  show "set (Values sts) \<subseteq> dom (count_states sts stats)"
  proof
    fix s assume "s \<in> set (Values sts)"
    then have "count_states sts stats s = Some (int (procs_in_state sts stats s))"
      by (rule count_states_known)
    then show "s \<in> dom (count_states sts stats)" by (rule domI)
  qed
  show "\<forall>s \<in> set (Values sts). count_states sts stats s = Some (int (procs_in_state sts stats s))"
    by (simp add: count_states_known)
  show "\<forall>s \<in> set (Values sts). count_states sts [] s = Some 0"
    by (simp add: count_states_known procs_in_state_def)
  show "dom (count_states sts []) = set (Values sts)"
    by (simp add: count_states_def init_stateCount_def dom_fold_upd)
  show "\<forall>stats'. mset stats' = mset stats \<longrightarrow> count_states sts stats' = count_states sts stats"
    using count_states_mset by blast
qed

theorem count_states_aggregate_witness:
  "''running'' \<in> set (Values ex_states) \<and> mset [proc_S, proc_R, proc_R] = mset [proc_R, proc_S, proc_R] \<and>
   ''running'' \<in> dom (count_states ex_states [proc_R, proc_S, proc_R]) \<and>
   count_states ex_states [proc_R, proc_S, proc_R] ''running'' = Some 2 \<and>
   count_states ex_states [] ''running'' = Some 0 \<and>
   count_states ex_states [proc_S, proc_R, proc_R] = count_states ex_states [proc_R, proc_S, proc_R]"
proof -
  have k: "''running'' \<in> set (Values ex_states)"
    by (simp add: Values_def ex_states_def)
  have m: "mset [proc_S, proc_R, proc_R] = mset [proc_R, proc_S, proc_R]"
    by simp
  have n: "procs_in_state ex_states [proc_R, proc_S, proc_R] ''running'' = 2"
    by (simp add: procs_in_state_def States_at_def ex_states_def proc_R_def proc_S_def)
  note t = count_states_aggregate [of ex_states "[proc_R, proc_S, proc_R]"]
  have d: "''running'' \<in> dom (count_states ex_states [proc_R, proc_S, proc_R])"
    using t [THEN conjunct1] k by (rule subsetD)
  have c: "count_states ex_states [proc_R, proc_S, proc_R] ''running'' = Some 2"
    using t [THEN conjunct2, THEN conjunct1, rule_format, OF k] n by simp
  have z: "count_states ex_states [] ''running'' = Some 0"
    using k by (rule t [THEN conjunct2, THEN conjunct2, THEN conjunct1, rule_format])
  have e: "count_states ex_states [proc_S, proc_R, proc_R] = count_states ex_states [proc_R, proc_S, proc_R]"
    using m by (rule t [THEN conjunct2, THEN conjunct2, THEN conjunct2, THEN conjunct2, rule_format])
  show ?thesis
    using k m d c z e by (intro conjI)
qed

text \<open>
  C8. Whatever the order in which Go ranges over the map of metric names, and for a table of
  states whose state names are pairwise different, the namespaces that \<open>GetMetricTypes\<close>
  returns are the patterns of the metric names followed by the patterns of the state names:
  the pattern of each metric name occurs exactly once, the pattern of each state name occurs
  exactly once, no namespace occurs twice and there is no other namespace. The pattern of a
  metric name has the dynamic elements at the positions 4 and 5 only and the metric name as
  last element; the pattern of a state name has no dynamic element and the state name as
  last element.
\<close>

theorem GetMetricTypes_patterns:
  assumes "is_range_order order" and "distinct (Values sts)"
  shows "map Namespace' (GetMetricTypes order sts cfg) =
           map metric_pattern order @ map state_pattern (Values sts) \<and>
         (\<forall>d \<in> set (map fst metricNames).
            count_list (map Namespace' (GetMetricTypes order sts cfg)) (metric_pattern d) = 1) \<and>
         (\<forall>s \<in> set (Values sts).
            count_list (map Namespace' (GetMetricTypes order sts cfg)) (state_pattern s) = 1) \<and>
         distinct (map Namespace' (GetMetricTypes order sts cfg)) \<and>
         set (map Namespace' (GetMetricTypes order sts cfg)) =
           metric_pattern ` set (map fst metricNames) \<union> state_pattern ` set (Values sts) \<and>
         length (GetMetricTypes order sts cfg) = 15 + length (Values sts) \<and>
         (\<forall>d. map IsDynamic (metric_pattern d) = [False, False, False, False, True, True, False] \<and>
              Value (last (metric_pattern d)) = d) \<and>
         (\<forall>s. map IsDynamic (state_pattern s) = [False, False, False, False] \<and>
              Value (last (state_pattern s)) = s)"
proof -
  let ?ns = "map Namespace' (GetMetricTypes order sts cfg)"
  have ns: "?ns = map metric_pattern order @ map state_pattern (Values sts)"
    by (rule GetMetricTypes_namespaces)
  have ord: "distinct order" "set order = set (map fst metricNames)"
    using assms(1) by (simp_all add: is_range_order_def)
  have dist: "distinct ?ns"
    unfolding ns using ord(1) assms(2) by (rule distinct_patterns)
  have set: "set ?ns = metric_pattern ` set (map fst metricNames) \<union> state_pattern ` set (Values sts)"
    unfolding ns using ord(2) by simp
  have c1: "\<forall>d \<in> set (map fst metricNames). count_list ?ns (metric_pattern d) = 1"
  proof
    fix d assume "d \<in> set (map fst metricNames)"
    then have "metric_pattern d \<in> set ?ns" unfolding set by blast
    with dist show "count_list ?ns (metric_pattern d) = 1" by (rule count_list_distinct)
  qed
  have c2: "\<forall>s \<in> set (Values sts). count_list ?ns (state_pattern s) = 1"
  proof
    fix s assume "s \<in> set (Values sts)"
    then have "state_pattern s \<in> set ?ns" unfolding set by blast
    with dist show "count_list ?ns (state_pattern s) = 1" by (rule count_list_distinct)
  qed
  have "length order = 15"
    using ord distinct_card [of order] card_metricNames by simp
  then have len: "length (GetMetricTypes order sts cfg) = 15 + length (Values sts)"
    using arg_cong [OF ns, of length] by simp
  have shape1: "\<forall>d. map IsDynamic (metric_pattern d) = [False, False, False, False, True, True, False] \<and>
      Value (last (metric_pattern d)) = d"
    by (simp add: metric_pattern_def IsDynamic_def)
  have shape2: "\<forall>s. map IsDynamic (state_pattern s) = [False, False, False, False] \<and>
      Value (last (state_pattern s)) = s"
    by (simp add: state_pattern_def IsDynamic_def)
  show ?thesis
    using ns c1 c2 dist set len shape1 shape2 by (intro conjI)
qed

theorem GetMetricTypes_patterns_witness:
  "is_range_order (rev (map fst metricNames)) \<and> distinct (Values ex_states) \<and>
   ''ps_vm'' \<in> set (map fst metricNames) \<and> ''running'' \<in> set (Values ex_states) \<and>
   count_list (map Namespace' (GetMetricTypes (rev (map fst metricNames)) ex_states None))
     (metric_pattern ''ps_vm'') = 1 \<and>
   count_list (map Namespace' (GetMetricTypes (rev (map fst metricNames)) ex_states None))
     (state_pattern ''running'') = 1 \<and>
   length (GetMetricTypes (rev (map fst metricNames)) ex_states None) = 17"
proof -
  have o: "is_range_order (rev (map fst metricNames))"
    using distinct_metricNames by (simp add: is_range_order_def)
  have d: "distinct (Values ex_states)"
    by (simp add: Values_def ex_states_def)
  have k: "''ps_vm'' \<in> set (map fst metricNames)"
    by (rule metricNames_keys)
  have r: "''running'' \<in> set (Values ex_states)"
    by (simp add: Values_def ex_states_def)
  have l: "length (Values ex_states) = 2"
    by (simp add: Values_def ex_states_def)
  note t = GetMetricTypes_patterns [OF o d, of None]
  have c1: "count_list (map Namespace' (GetMetricTypes (rev (map fst metricNames)) ex_states None))
     (metric_pattern ''ps_vm'') = 1"
    using k by (rule t [THEN conjunct2, THEN conjunct1, rule_format])
  have c2: "count_list (map Namespace' (GetMetricTypes (rev (map fst metricNames)) ex_states None))
     (state_pattern ''running'') = 1"
    using r by (rule t [THEN conjunct2, THEN conjunct2, THEN conjunct1, rule_format])
  have n: "length (GetMetricTypes (rev (map fst metricNames)) ex_states None) = 17"
    using t [THEN conjunct2, THEN conjunct2, THEN conjunct2, THEN conjunct2, THEN conjunct2, THEN conjunct1] l
    by simp
  show ?thesis
    using o d k r c1 c2 n by (intro conjI)
qed





text \<open>
  C2. The guard of line 205 lets every namespace of 4 or more elements pass, but the branch
  for dynamic namespaces then reads the elements 4, 5 and 6: the namespace
  \<open>/intel/procfs/processes/*\<close> of 4 elements panics at element 4, and the namespace
  \<open>/intel/procfs/processes/pid/*/*\<close> of 6 elements panics at element 6.
\<close>

theorem CollectMetrics_dynamic_out_of_range:
  "length dynamic_4 = 4 \<and>
   CollectMetrics env_two [request dynamic_4] = Inl (Panicked (IndexOutOfRange 4 4)) \<and>
   length dynamic_6 = 6 \<and>
   CollectMetrics env_two [request dynamic_6] = Inl (Panicked (IndexOutOfRange 6 6))"
proof -
  have c: "\<And>ns. GetConfigItem env_two (request ns) ''proc_path'' = Inr (GString ''/proc'')"
    and g: "GetStats env_two ''/proc'' = Inr [proc_100, proc_200]"
    by (simp_all add: env_two_def)
  have l4: "length dynamic_4 = 4"
    by (simp add: dynamic_4_def AddDynamicElement_def NewNamespace_def)
  have l6: "length dynamic_6 = 6"
    by (simp add: dynamic_6_def metric_pattern_def)
  have d4: "fst (Namespace_IsDynamic dynamic_4)"
    unfolding Namespace_IsDynamic_iff
    by (simp add: dynamic_4_def AddDynamicElement_def NewNamespace_def IsDynamic_def)
  have d6: "fst (Namespace_IsDynamic dynamic_6)"
    unfolding Namespace_IsDynamic_iff
    by (simp add: dynamic_6_def metric_pattern_def IsDynamic_def)
  have e6: "IsDynamic (dynamic_6 ! 4)" "IsDynamic (dynamic_6 ! 5)"
    by (simp_all add: dynamic_6_def metric_pattern_def IsDynamic_def)
  have r4: "collect_one env_two [proc_100, proc_200] sc [] (request dynamic_4) =
      Inl (Panicked (IndexOutOfRange 4 4))" for sc
    using l4 d4 by (simp add: collect_one_def request_def Let_def index_def)
  have sp: "setProcMetrics proc_100 = Inr (procMetrics_of proc_100)"
    by (rule setProcMetrics_Inr) (simp add: proc_100_def)
  have ro: "range_order env_two proc_100 = rev (map fst metricNames)"
    by (simp add: env_two_def)
  have ne: "rev (map fst metricNames) \<noteq> []"
    by (simp add: metricNames_def)
  have pl: "procMetrics_loop env_two dynamic_6 proc_100 (procMetrics_of proc_100) []
      (rev (map fst metricNames)) = Inl (Panicked (IndexOutOfRange 6 6))"
    using procMetrics_loop_closed [of "rev (map fst metricNames)" env_two dynamic_6 proc_100
        "procMetrics_of proc_100" "[]"] distinct_metricNames ne l6
    by simp
  have r6: "collect_one env_two [proc_100, proc_200] sc [] (request dynamic_6) =
      Inl (Panicked (IndexOutOfRange 6 6))" for sc
    using l6 d6 e6 by (simp add: collect_one_def request_def Let_def index_def sp ro pl)
  show ?thesis
    using l4 l6 r4 r6 CollectMetrics_single [OF c g] by simp
qed

text \<open>
  C10. For the empty list of requested metric types \<open>CollectMetrics\<close> panics at
  \<open>metricTypes[0]\<close>, before it calls any collaborator. For a list that is not empty the
  element 0 is there, and \<open>GetConfigItem\<close> is called on it first, before any namespace is
  looked at and before the snapshot is fetched: if the lookup returns an error, that error
  is returned and \<open>GetStats\<close> is not called; if it returns a string, \<open>GetStats\<close> is called
  next, with that string; if it returns a value that is no string, the type assertion
  panics and \<open>GetStats\<close> is not called.
\<close>

theorem CollectMetrics_reads_first_element:
  "CollectMetrics_run e [] = ([], Inl (Panicked (IndexOutOfRange 0 0))) \<and>
   (\<forall>metricType metricTypes.
      index (metricType # metricTypes) 0 = Inr metricType \<and>
      take 1 (fst (CollectMetrics_run e (metricType # metricTypes))) = [Call_GetConfigItem metricType] \<and>
      (\<forall>err. GetConfigItem e metricType ''proc_path'' = Inl err \<longrightarrow>
         CollectMetrics_run e (metricType # metricTypes) =
           ([Call_GetConfigItem metricType], Inl (Returned err))) \<and>
      (\<forall>path. GetConfigItem e metricType ''proc_path'' = Inr (GString path) \<longrightarrow>
         fst (CollectMetrics_run e (metricType # metricTypes)) =
           [Call_GetConfigItem metricType, Call_GetStats path]) \<and>
      (\<forall>v. GetConfigItem e metricType ''proc_path'' = Inr v \<and> (\<forall>path. v \<noteq> GString path) \<longrightarrow>
         CollectMetrics_run e (metricType # metricTypes) =
           ([Call_GetConfigItem metricType], Inl (Panicked TypeAssertion))))"
proof (intro conjI allI impI)
  show "CollectMetrics_run e [] = ([], Inl (Panicked (IndexOutOfRange 0 0)))"
    by (simp add: CollectMetrics_run_def index_def)
next
  fix metricType :: MetricType and metricTypes :: "MetricType list"
  show "index (metricType # metricTypes) 0 = Inr metricType"
    by (simp add: index_def)
  show "take 1 (fst (CollectMetrics_run e (metricType # metricTypes))) = [Call_GetConfigItem metricType]"
    by (simp add: CollectMetrics_run_def index_def Let_def split: sum.split gvalue.split)
next
  fix metricType metricTypes err
  assume "GetConfigItem e metricType ''proc_path'' = Inl err"
  then show "CollectMetrics_run e (metricType # metricTypes) =
      ([Call_GetConfigItem metricType], Inl (Returned err))"
    by (simp add: CollectMetrics_run_def index_def)
next
  fix metricType metricTypes path
  assume "GetConfigItem e metricType ''proc_path'' = Inr (GString path)"
  then show "fst (CollectMetrics_run e (metricType # metricTypes)) =
      [Call_GetConfigItem metricType, Call_GetStats path]"
    by (simp add: CollectMetrics_run_def index_def Let_def split: sum.split)
next
  fix metricType metricTypes v
  assume "GetConfigItem e metricType ''proc_path'' = Inr v \<and> (\<forall>path. v \<noteq> GString path)"
  then show "CollectMetrics_run e (metricType # metricTypes) =
      ([Call_GetConfigItem metricType], Inl (Panicked TypeAssertion))"
    by (cases v) (simp_all add: CollectMetrics_run_def index_def)
qed

theorem CollectMetrics_reads_first_element_witness:
  "GetConfigItem env_no_config (request short_3) ''proc_path'' =
     Inl (Errorf ''Cannot find proc_path in Global Config'') \<and>
   CollectMetrics_run env_no_config [request short_3, request (metric_pattern ''ps_vm'')] =
     ([Call_GetConfigItem (request short_3)],
      Inl (Returned (Errorf ''Cannot find proc_path in Global Config''))) \<and>
   GetConfigItem env_two (request (metric_pattern ''ps_vm'')) ''proc_path'' = Inr (GString ''/proc'') \<and>
   fst (CollectMetrics_run env_two [request (metric_pattern ''ps_vm'')]) =
     [Call_GetConfigItem (request (metric_pattern ''ps_vm'')), Call_GetStats ''/proc''] \<and>
   CollectMetrics_run env_two [] = ([], Inl (Panicked (IndexOutOfRange 0 0)))"
proof -
  have a: "GetConfigItem env_no_config (request short_3) ''proc_path'' =
      Inl (Errorf ''Cannot find proc_path in Global Config'')"
    by (simp add: env_no_config_def)
  have b: "GetConfigItem env_two (request (metric_pattern ''ps_vm'')) ''proc_path'' = Inr (GString ''/proc'')"
    by (simp add: env_two_def)
  note t1 = CollectMetrics_reads_first_element [of env_no_config, THEN conjunct2, rule_format]
  note t2 = CollectMetrics_reads_first_element [of env_two, THEN conjunct2, rule_format]
  note t3 = CollectMetrics_reads_first_element [of env_two, THEN conjunct1]
  have r1: "CollectMetrics_run env_no_config [request short_3, request (metric_pattern ''ps_vm'')] =
     ([Call_GetConfigItem (request short_3)],
      Inl (Returned (Errorf ''Cannot find proc_path in Global Config'')))"
    using a by (rule t1 [THEN conjunct2, THEN conjunct2, THEN conjunct1, rule_format])
  have r2: "fst (CollectMetrics_run env_two [request (metric_pattern ''ps_vm'')]) =
     [Call_GetConfigItem (request (metric_pattern ''ps_vm'')), Call_GetStats ''/proc'']"
    using b by (rule t2 [THEN conjunct2, THEN conjunct2, THEN conjunct2, THEN conjunct1, rule_format])
  show ?thesis
    using a r1 b r2 t3 by (intro conjI)
qed

text \<open>
  C5, as amended. Let the lookup of \<open>proc_path\<close> on the first requested metric type return
  a string. If the data source fails, \<open>CollectMetrics\<close> returns its error, wrapped, and no
  metrics, whatever the requested namespaces are. If a call returns metrics, every requested
  namespace has at least 4 elements: with a shorter one in the request no metric is returned,
  also none of the namespaces before it. If the data source returns a snapshot whose records
  have their 29 status fields, and every namespace before the first short one is resolved
  with its element accesses in range, the call returns the error of line 206 for that short
  namespace.
\<close>

theorem CollectMetrics_fails_atomically:
  assumes "GetConfigItem e metricType ''proc_path'' = Inr (GString path)"
  shows "(\<forall>err. GetStats e path = Inl err \<longrightarrow>
            CollectMetrics e (metricType # metricTypes) = Inl (Returned (SError err))) \<and>
         (\<forall>metrics. CollectMetrics e (metricType # metricTypes) = Inr metrics \<longrightarrow>
            (\<forall>mt \<in> set (metricType # metricTypes). 4 \<le> length (Namespace' mt))) \<and>
         (\<forall>stats pre short post.
            GetStats e path = Inr stats \<and> (\<forall>proc \<in> set stats. 29 \<le> length (Stat proc)) \<and>
            metricType # metricTypes = pre @ short # post \<and>
            (\<forall>mt \<in> set pre. resolvable (Namespace' mt)) \<and> length (Namespace' short) < 4 \<longrightarrow>
            CollectMetrics e (metricType # metricTypes) =
              Inl (Returned (SError (Errorf
                (''Unknown namespace length. Expecting at least 4, is '' @
                   Itoa (int (length (Namespace' short))))))))"
proof (intro conjI allI impI)
  fix err assume "GetStats e path = Inl err"
  then show "CollectMetrics e (metricType # metricTypes) = Inl (Returned (SError err))"
    using assms by (simp add: CollectMetrics_def CollectMetrics_run_def index_def)
next
  fix metrics assume "CollectMetrics e (metricType # metricTypes) = Inr metrics"
  then obtain stats where
    "metricTypes_loop e stats (count_states (States e) stats) [] (metricType # metricTypes) = Inr metrics"
    using CollectMetrics_Inr_fetched by blast
  then show "\<forall>mt \<in> set (metricType # metricTypes). 4 \<le> length (Namespace' mt)"
    by (rule metricTypes_loop_Inr_length)
next
  fix stats pre short post
  assume h: "GetStats e path = Inr stats \<and> (\<forall>proc \<in> set stats. 29 \<le> length (Stat proc)) \<and>
      metricType # metricTypes = pre @ short # post \<and>
      (\<forall>mt \<in> set pre. resolvable (Namespace' mt)) \<and> length (Namespace' short) < 4"
  have "CollectMetrics e (metricType # metricTypes) =
      metricTypes_loop e stats (count_states (States e) stats) [] (metricType # metricTypes)"
    using CollectMetrics_run_fetched [OF assms, of stats metricTypes] h
    by (simp add: CollectMetrics_def)
  also have "\<dots> = metricTypes_loop e stats (count_states (States e) stats) [] (pre @ short # post)"
    using h by simp
  also have "\<dots> = Inl (namespace_length_error (length (Namespace' short)))"
    using h by (intro metricTypes_loop_first_short) blast+
  finally show "CollectMetrics e (metricType # metricTypes) =
      Inl (Returned (SError (Errorf
        (''Unknown namespace length. Expecting at least 4, is '' @
           Itoa (int (length (Namespace' short)))))))"
    by (simp add: namespace_length_error_def)
qed

theorem CollectMetrics_fails_atomically_witness:
  "GetConfigItem env_two (request (state_pattern ''running'')) ''proc_path'' = Inr (GString ''/proc'') \<and>
   GetStats env_two ''/proc'' = Inr [proc_100, proc_200] \<and>
   29 \<le> length (Stat proc_100) \<and> 29 \<le> length (Stat proc_200) \<and>
   resolvable (Namespace' (request (state_pattern ''running''))) \<and>
   length (Namespace' (request short_3)) < 4 \<and>
   CollectMetrics env_two
     [request (state_pattern ''running''), request short_3, request (metric_pattern ''ps_vm'')] =
     Inl (Returned (SError (Errorf ''Unknown namespace length. Expecting at least 4, is 3''))) \<and>
   GetConfigItem env_unreadable (request (state_pattern ''running'')) ''proc_path'' = Inr (GString ''/proc'') \<and>
   GetStats env_unreadable ''/proc'' = Inl (Errorf ''permission denied'') \<and>
   CollectMetrics env_unreadable [request (state_pattern ''running'')] =
     Inl (Returned (SError (Errorf ''permission denied'')))"
proof -
  have c: "GetConfigItem env_two (request (state_pattern ''running'')) ''proc_path'' = Inr (GString ''/proc'')"
    and g: "GetStats env_two ''/proc'' = Inr [proc_100, proc_200]"
    by (simp_all add: env_two_def)
  have c': "GetConfigItem env_unreadable (request (state_pattern ''running'')) ''proc_path'' = Inr (GString ''/proc'')"
    and g': "GetStats env_unreadable ''/proc'' = Inl (Errorf ''permission denied'')"
    by (simp_all add: env_unreadable_def env_two_def)
  have l1: "29 \<le> length (Stat proc_100)" and l2: "29 \<le> length (Stat proc_200)"
    by (simp_all add: proc_100_def proc_200_def)
  have wf: "\<forall>proc \<in> set [proc_100, proc_200]. 29 \<le> length (Stat proc)"
    using l1 l2 by simp
  have res1: "resolvable (Namespace' (request (state_pattern ''running'')))"
    by (simp add: resolvable_def request_def state_pattern_def IsDynamic_def)
  have res: "\<forall>mt \<in> set [request (state_pattern ''running'')]. resolvable (Namespace' mt)"
    using res1 by simp
  have sh: "length (Namespace' (request short_3)) < 4"
    by (simp add: request_def short_3_def NewNamespace_def)
  have l3: "length (Namespace' (request short_3)) = 3"
    by (simp add: request_def short_3_def NewNamespace_def)
  have r1: "CollectMetrics env_two
     [request (state_pattern ''running''), request short_3, request (metric_pattern ''ps_vm'')] =
     Inl (Returned (SError (Errorf ''Unknown namespace length. Expecting at least 4, is 3'')))"
    using CollectMetrics_fails_atomically [OF c, of "[request short_3, request (metric_pattern ''ps_vm'')]",
        THEN conjunct2, THEN conjunct2, rule_format,
        of "[proc_100, proc_200]" "[request (state_pattern ''running'')]" "request short_3"
           "[request (metric_pattern ''ps_vm'')]"]
      g wf res sh
    by (simp add: l3 Itoa_examples)
  have r2: "CollectMetrics env_unreadable [request (state_pattern ''running'')] =
     Inl (Returned (SError (Errorf ''permission denied'')))"
    using g' by (rule CollectMetrics_fails_atomically [OF c', THEN conjunct1, rule_format])
  show ?thesis
    using c g l1 l2 res1 sh r1 c' g' r2 by (intro conjI)
qed

theorem CollectMetrics_short_namespace_counterexample:
  "length (Namespace' (request short_3)) < 4 \<and>
   CollectMetrics env_unreadable [request short_3] =
     Inl (Returned (SError (Errorf ''permission denied''))) \<and>
   CollectMetrics env_two [request dynamic_4, request short_3] =
     Inl (Panicked (IndexOutOfRange 4 4))"
proof -
  have sh: "length (Namespace' (request short_3)) < 4"
    by (simp add: request_def short_3_def NewNamespace_def)
  have c: "\<And>ns. GetConfigItem env_two (request ns) ''proc_path'' = Inr (GString ''/proc'')"
    and g: "GetStats env_two ''/proc'' = Inr [proc_100, proc_200]"
    by (simp_all add: env_two_def)
  have c': "\<And>ns. GetConfigItem env_unreadable (request ns) ''proc_path'' = Inr (GString ''/proc'')"
    and g': "GetStats env_unreadable ''/proc'' = Inl (Errorf ''permission denied'')"
    by (simp_all add: env_unreadable_def env_two_def)
  have r1: "CollectMetrics env_unreadable [request short_3] =
      Inl (Returned (SError (Errorf ''permission denied'')))"
    using c' g' by (simp add: CollectMetrics_def CollectMetrics_run_def index_def)
  have l4: "length dynamic_4 = 4"
    by (simp add: dynamic_4_def AddDynamicElement_def NewNamespace_def)
  have d4: "fst (Namespace_IsDynamic dynamic_4)"
    unfolding Namespace_IsDynamic_iff
    by (simp add: dynamic_4_def AddDynamicElement_def NewNamespace_def IsDynamic_def)
  have r4: "collect_one env_two [proc_100, proc_200] sc [] (request dynamic_4) =
      Inl (Panicked (IndexOutOfRange 4 4))" for sc
    using l4 d4 by (simp add: collect_one_def request_def Let_def index_def)
  have r2: "CollectMetrics env_two [request dynamic_4, request short_3] =
      Inl (Panicked (IndexOutOfRange 4 4))"
    using CollectMetrics_run_fetched [OF c g, of dynamic_4 "[request short_3]"]
    by (simp add: CollectMetrics_def r4)
  show ?thesis
    using sh r1 r2 by (intro conjI)
qed

text \<open>
  C9, as amended. Two calls of \<open>CollectMetrics\<close> with the same requested metric types, the
  same table of states, the same answers of the configuration lookup and of the data source
  make the same calls to the collaborators and return the same outcome, apart from the
  times of the metrics, which are readings of the clock: the same failure, or the same
  metrics with the same values in the same order. This holds whatever the orders in which Go
  ranges over the metrics of each process in the two calls. With the same readings of the
  clock the two outcomes are equal.
\<close>

theorem CollectMetrics_deterministic:
  assumes "States e' = States e" and "GetConfigItem e' = GetConfigItem e" and "GetStats e' = GetStats e"
    and "\<forall>proc. is_range_order (range_order e proc)"
    and "\<forall>proc. is_range_order (range_order e' proc)"
  shows "map_sum id (map untimed) (CollectMetrics e' metricTypes) =
           map_sum id (map untimed) (CollectMetrics e metricTypes) \<and>
         fst (CollectMetrics_run e' metricTypes) = fst (CollectMetrics_run e metricTypes) \<and>
         (Now e' = Now e \<longrightarrow> CollectMetrics e' metricTypes = CollectMetrics e metricTypes)"
proof (intro conjI impI)
  show "map_sum id (map untimed) (CollectMetrics e' metricTypes) =
      map_sum id (map untimed) (CollectMetrics e metricTypes)"
    unfolding untimed_retime using assms by (intro CollectMetrics_retime) simp_all
  show "fst (CollectMetrics_run e' metricTypes) = fst (CollectMetrics_run e metricTypes)"
    using assms(2,3) by (rule CollectMetrics_calls_eq)
  show "CollectMetrics e' metricTypes = CollectMetrics e metricTypes" if "Now e' = Now e"
  proof -
    have "map_sum id (map (retime (\<lambda>t. t))) (CollectMetrics e' metricTypes) =
        map_sum id (map (retime (\<lambda>t. t))) (CollectMetrics e metricTypes)"
      using assms that by (intro CollectMetrics_retime) simp_all
    then show ?thesis
      by (simp add: retime_id sum.map_ident id_def)
  qed
qed

theorem CollectMetrics_deterministic_witness:
  "States env_later = States env_two \<and> GetConfigItem env_later = GetConfigItem env_two \<and>
   GetStats env_later = GetStats env_two \<and>
   (\<forall>proc. is_range_order (range_order env_two proc)) \<and>
   (\<forall>proc. is_range_order (range_order env_later proc)) \<and>
   range_order env_later proc_100 \<noteq> range_order env_two proc_100 \<and>
   map_sum id (map untimed) (CollectMetrics env_later [request (metric_pattern ''ps_vm'')]) =
     map_sum id (map untimed) (CollectMetrics env_two [request (metric_pattern ''ps_vm'')]) \<and>
   fst (CollectMetrics_run env_later [request (metric_pattern ''ps_vm'')]) =
     fst (CollectMetrics_run env_two [request (metric_pattern ''ps_vm'')])"
proof -
  have a: "States env_later = States env_two"
    and b: "GetConfigItem env_later = GetConfigItem env_two"
    and c: "GetStats env_later = GetStats env_two"
    by (simp_all add: env_later_def)
  have d: "\<forall>proc. is_range_order (range_order env_two proc)"
    using distinct_metricNames by (simp add: env_two_def is_range_order_def)
  have d': "\<forall>proc. is_range_order (range_order env_later proc)"
    using distinct_metricNames by (simp add: env_later_def is_range_order_def)
  have o: "range_order env_later proc_100 \<noteq> range_order env_two proc_100"
    by (simp add: env_later_def env_two_def metricNames_def)
  note t = CollectMetrics_deterministic [OF a b c d d', of "[request (metric_pattern ''ps_vm'')]"]
  show ?thesis
    using a b c d d' o t [THEN conjunct1] t [THEN conjunct2, THEN conjunct1] by (intro conjI)
qed

theorem CollectMetrics_timestamp_counterexample:
  "States env_later = States env_two \<and> GetConfigItem env_later = GetConfigItem env_two \<and>
   GetStats env_later = GetStats env_two \<and>
   CollectMetrics env_two [request (state_pattern ''running'')] =
     Inr [\<lparr>Namespace' = state_pattern ''running'', Config' = None, Data' = Some (GInt 1),
           Timestamp' = 1000, Unit' = [],
           Description' = ''Number of processes in running state''\<rparr>] \<and>
   CollectMetrics env_later [request (state_pattern ''running'')] =
     Inr [\<lparr>Namespace' = state_pattern ''running'', Config' = None, Data' = Some (GInt 1),
           Timestamp' = 2000, Unit' = [],
           Description' = ''Number of processes in running state''\<rparr>] \<and>
   CollectMetrics env_later [request (state_pattern ''running'')] \<noteq>
     CollectMetrics env_two [request (state_pattern ''running'')]"
proof -
  let ?mt = "request (state_pattern ''running'')"
  have a: "States env_later = States env_two"
    and b: "GetConfigItem env_later = GetConfigItem env_two"
    and c: "GetStats env_later = GetStats env_two"
    by (simp_all add: env_later_def)
  have st: "States env_two = ex_states" by (simp add: env_two_def)
  have cg: "GetConfigItem env_two ?mt ''proc_path'' = Inr (GString ''/proc'')"
    "GetStats env_two ''/proc'' = Inr [proc_100, proc_200]"
    by (simp_all add: env_two_def)
  have cg': "GetConfigItem env_later ?mt ''proc_path'' = Inr (GString ''/proc'')"
    "GetStats env_later ''/proc'' = Inr [proc_100, proc_200]"
    by (simp_all add: env_later_def env_two_def)
  have len: "4 \<le> length (Namespace' ?mt)"
    and stat: "\<forall>el \<in> set (Namespace' ?mt). \<not> IsDynamic el"
    and v: "Value (Namespace' ?mt ! 3) = ''running''"
    and ns: "Namespace' ?mt = state_pattern ''running''"
    and v': "Value (state_pattern ''running'' ! 3) = ''running''"
    by (simp_all add: request_def state_pattern_def IsDynamic_def)
  have k: "''running'' \<in> set (Values ex_states)"
    by (simp add: Values_def ex_states_def)
  have n: "procs_in_state ex_states [proc_100, proc_200] ''running'' = 1"
    by (simp add: procs_in_state_def States_at_def ex_states_def proc_100_def proc_200_def)
  have cnt: "count_states ex_states [proc_100, proc_200] ''running'' = Some 1"
    using count_states_known [OF k, of "[proc_100, proc_200]"] n by simp
  have now: "Now env_two 0 = 1000" "Now env_later 0 = 2000"
    by (simp_all add: env_two_def env_later_def)
  have r1: "CollectMetrics env_two [?mt] =
     Inr [\<lparr>Namespace' = state_pattern ''running'', Config' = None, Data' = Some (GInt 1),
           Timestamp' = 1000, Unit' = [],
           Description' = ''Number of processes in running state''\<rparr>]"
    using k by (simp add: CollectMetrics_single [OF cg] collect_one_static [OF len stat]
        Contains_iff v v' ns st cnt now)
  have r2: "CollectMetrics env_later [?mt] =
     Inr [\<lparr>Namespace' = state_pattern ''running'', Config' = None, Data' = Some (GInt 1),
           Timestamp' = 2000, Unit' = [],
           Description' = ''Number of processes in running state''\<rparr>]"
    using k by (simp add: CollectMetrics_single [OF cg'] collect_one_static [OF len stat]
        Contains_iff v v' ns a st cnt now)
  have ne: "CollectMetrics env_later [?mt] \<noteq> CollectMetrics env_two [?mt]"
    unfolding r1 r2 by simp
  show ?thesis
    using a b c r1 r2 ne by (intro conjI)
qed

end
